theory Spec2Isabelle
  imports Complex_Main "HOL-Library.AList"
begin

section \<open>Numbers: NumPy floats without rounding\<close>

text \<open>
  The program computes with NumPy/pandas \<open>float64\<close> values.  The model keeps the four
  kinds of value such a computation can produce (a finite number, the two infinities and
  NaN) and the IEEE rules by which the non-finite ones arise and propagate, but computes
  finite results exactly over the reals: rounding, overflow and the sign of zero are not
  modelled.  NaN is also what pandas treats as a missing cell.
\<close>

datatype npfloat = Fin real | PInf | NInf | NaN

fun finf :: "real \<Rightarrow> npfloat" where
  "finf s = (if 0 < s then PInf else if s < 0 then NInf else NaN)"

fun fsign :: "npfloat \<Rightarrow> real" where
  "fsign (Fin x) = x"
| "fsign PInf = 1"
| "fsign NInf = - 1"
| "fsign NaN = 0"

fun fneg :: "npfloat \<Rightarrow> npfloat" where
  "fneg (Fin x) = Fin (- x)"
| "fneg PInf = NInf"
| "fneg NInf = PInf"
| "fneg NaN = NaN"

fun fadd :: "npfloat \<Rightarrow> npfloat \<Rightarrow> npfloat" where
  "fadd (Fin x) (Fin y) = Fin (x + y)"
| "fadd NaN b = NaN"
| "fadd a NaN = NaN"
| "fadd PInf NInf = NaN"
| "fadd NInf PInf = NaN"
| "fadd PInf b = PInf"
| "fadd NInf b = NInf"
| "fadd a PInf = PInf"
| "fadd a NInf = NInf"

definition fsub :: "npfloat \<Rightarrow> npfloat \<Rightarrow> npfloat" where
  "fsub a b = fadd a (fneg b)"

fun fmul :: "npfloat \<Rightarrow> npfloat \<Rightarrow> npfloat" where
  "fmul (Fin x) (Fin y) = Fin (x * y)"
| "fmul NaN b = NaN"
| "fmul a NaN = NaN"
| "fmul a b = finf (fsign a * fsign b)"

fun fdiv :: "npfloat \<Rightarrow> npfloat \<Rightarrow> npfloat" where
  "fdiv (Fin x) (Fin y) = (if y = 0 then finf x else Fin (x / y))"
| "fdiv NaN b = NaN"
| "fdiv a NaN = NaN"
| "fdiv (Fin x) b = Fin 0"
| "fdiv a (Fin y) = finf (fsign a * (if y < 0 then - 1 else 1))"
| "fdiv a b = NaN"

fun fsqrt :: "npfloat \<Rightarrow> npfloat" where
  "fsqrt (Fin x) = (if x < 0 then NaN else Fin (sqrt x))"
| "fsqrt PInf = PInf"
| "fsqrt NInf = NaN"
| "fsqrt NaN = NaN"

fun fabs :: "npfloat \<Rightarrow> npfloat" where
  "fabs (Fin x) = Fin \<bar>x\<bar>"
| "fabs PInf = PInf"
| "fabs NInf = PInf"
| "fabs NaN = NaN"

text \<open>Comparisons: every comparison with NaN is false, as in Python.\<close>

fun flt :: "npfloat \<Rightarrow> npfloat \<Rightarrow> bool" where
  "flt (Fin x) (Fin y) = (x < y)"
| "flt NaN b = False"
| "flt a NaN = False"
| "flt a NInf = False"
| "flt PInf b = False"
| "flt a b = True"

definition fgt :: "npfloat \<Rightarrow> npfloat \<Rightarrow> bool" where
  "fgt a b = flt b a"

definition feq :: "npfloat \<Rightarrow> npfloat \<Rightarrow> bool" where
  "feq a b = (a \<noteq> NaN \<and> a = b)"

definition isnan :: "npfloat \<Rightarrow> bool" where
  "isnan a = (a = NaN)"

definition fsum :: "npfloat list \<Rightarrow> npfloat" where
  "fsum xs = foldl fadd (Fin 0) xs"

definition fsquare :: "npfloat \<Rightarrow> npfloat" where
  "fsquare a = fmul a a"

subsection \<open>Reductions of NumPy, SciPy and pandas\<close>

text \<open>
  \<open>np.mean\<close> divides the sum by the length (0/0 = NaN on an empty array).  \<open>np.var\<close>
  with \<open>ddof\<close> divides the sum of squared deviations by \<open>max(n - ddof, 0)\<close>.
  \<open>scipy.stats.sem\<close> is \<open>np.std(a, ddof=1) / np.sqrt(n)\<close>.
\<close>

definition np_mean :: "npfloat list \<Rightarrow> npfloat" where
  "np_mean xs = fdiv (fsum xs) (Fin (real (length xs)))"

definition np_var :: "nat \<Rightarrow> npfloat list \<Rightarrow> npfloat" where
  "np_var ddof xs =
     (let m = np_mean xs
      in fdiv (fsum (map (\<lambda>x. fsquare (fsub x m)) xs)) (Fin (real (length xs - ddof))))"

definition np_std :: "nat \<Rightarrow> npfloat list \<Rightarrow> npfloat" where
  "np_std ddof xs = fsqrt (np_var ddof xs)"

definition sem :: "npfloat list \<Rightarrow> npfloat" where
  "sem xs = fdiv (np_std 1 xs) (fsqrt (Fin (real (length xs))))"

text \<open>
  The pandas reductions \<open>Series.mean()\<close> and \<open>Series.std()\<close> skip missing cells
  (\<open>skipna=True\<close>); \<open>std\<close> uses \<open>ddof=1\<close> and is NaN when fewer than two cells remain.
\<close>

definition dropna :: "npfloat list \<Rightarrow> npfloat list" where
  "dropna xs = filter (\<lambda>x. \<not> isnan x) xs"

definition pd_mean :: "npfloat list \<Rightarrow> npfloat" where
  "pd_mean xs = np_mean (dropna xs)"

definition pd_std :: "npfloat list \<Rightarrow> npfloat" where
  "pd_std xs = np_std 1 (dropna xs)"

section \<open>Data frames\<close>

text \<open>
  A pandas \<open>DataFrame\<close> is an index and an ordered list of named columns.  Dates are day
  numbers (the tables here have daily resolution).  Looking up a column that is not
  there raises \<open>KeyError\<close>.
\<close>

datatype exn = KeyError string | ValueError string

record dataframe =
  index :: "int list"
  columns :: "(string \<times> npfloat list) list"

definition getcol :: "dataframe \<Rightarrow> string \<Rightarrow> exn + npfloat list" where
  "getcol df name =
     (case map_of (columns df) name of None \<Rightarrow> Inl (KeyError name) | Some c \<Rightarrow> Inr c)"

text \<open>\<open>series[mask]\<close>: the cells at the rows where the boolean mask holds.\<close>

definition select :: "bool list \<Rightarrow> 'a list \<Rightarrow> 'a list" where
  "select msk xs = map snd (filter fst (zip msk xs))"

section \<open>Statistical analysis\<close>

subsection \<open>calculate_confidence_interval\<close>

text \<open>
  \<open>stats.t.ppf\<close> is SciPy's Student-t quantile function; it is a parameter of the model.
\<close>

definition calculate_confidence_interval ::
  "(real \<Rightarrow> int \<Rightarrow> npfloat) \<Rightarrow> npfloat list \<Rightarrow> real
     \<Rightarrow> npfloat \<times> npfloat \<times> npfloat \<times> npfloat" where
  "calculate_confidence_interval t_ppf vals confidence =
     (let mean = np_mean vals;
          std_err = sem vals;
          h = fmul std_err (t_ppf ((1 + confidence) / 2) (int (length vals) - 1))
      in (fsub mean h, fadd mean h, mean, std_err))"

subsection \<open>test_promotion_impact and test_holiday_impact\<close>

text \<open>
  Both functions return a dictionary: either the single key \<open>"error"\<close>, or the test's
  results.  \<open>stats.ttest_ind\<close> (SciPy) is a parameter; it returns the pair of the
  t statistic and the p-value.
\<close>

datatype 'a result_dict = ErrorDict string | ResultDict 'a

record ttest_fields =
  t_statistic :: npfloat
  p_value :: npfloat
  significant :: bool
  lift_percentage :: npfloat

record promo_result = ttest_fields +
  promo_mean :: npfloat
  no_promo_mean :: npfloat
  cohens_d :: npfloat
  effect_size :: string

record holiday_result = ttest_fields +
  holiday_mean :: npfloat
  regular_mean :: npfloat

definition pooled_std :: "npfloat list \<Rightarrow> npfloat list \<Rightarrow> npfloat" where
  "pooled_std a b =
     fsqrt (fdiv
       (fadd (fmul (Fin (real_of_int (int (length a) - 1))) (fsquare (pd_std a)))
             (fmul (Fin (real_of_int (int (length b) - 1))) (fsquare (pd_std b))))
       (Fin (real_of_int (int (length a) + int (length b) - 2))))"

definition effect_size_of :: "npfloat \<Rightarrow> string" where
  "effect_size_of d =
     (if fgt (fabs d) (Fin (8 / 10)) then ''large''
      else if fgt (fabs d) (Fin (5 / 10)) then ''medium''
      else ''small'')"

definition promo_groups :: "npfloat list \<Rightarrow> npfloat list \<Rightarrow> npfloat list \<times> npfloat list" where
  "promo_groups pc sales =
     (select (map (\<lambda>c. fgt c (Fin 0)) pc) sales, select (map (\<lambda>c. feq c (Fin 0)) pc) sales)"

definition test_promotion_impact ::
  "(npfloat list \<Rightarrow> npfloat list \<Rightarrow> npfloat \<times> npfloat) \<Rightarrow> dataframe
     \<Rightarrow> exn + promo_result result_dict" where
  "test_promotion_impact ttest_ind df =
     (case getcol df ''promo_count'' of Inl e \<Rightarrow> Inl e | Inr pc \<Rightarrow>
      case getcol df ''sales'' of Inl e \<Rightarrow> Inl e | Inr sales \<Rightarrow>
      Inr (let (promo_days, no_promo_days) = promo_groups pc sales
           in if length promo_days = 0 \<or> length no_promo_days = 0
              then ErrorDict ''Insufficient data for comparison''
              else
                let (t_stat, p_val) = ttest_ind promo_days no_promo_days;
                    d = fdiv (fsub (pd_mean promo_days) (pd_mean no_promo_days))
                             (pooled_std promo_days no_promo_days);
                    pm = pd_mean promo_days;
                    npm = pd_mean no_promo_days;
                    lift = fmul (fdiv (fsub pm npm) npm) (Fin 100)
                in ResultDict
                     \<lparr>t_statistic = t_stat, p_value = p_val,
                      significant = flt p_val (Fin (5 / 100)),
                      lift_percentage = lift,
                      promo_mean = pm, no_promo_mean = npm,
                      cohens_d = d, effect_size = effect_size_of d\<rparr>))"

definition holiday_groups :: "npfloat list \<Rightarrow> npfloat list \<Rightarrow> npfloat list \<times> npfloat list" where
  "holiday_groups hol sales =
     (select (map (\<lambda>c. feq c (Fin 1)) hol) sales, select (map (\<lambda>c. feq c (Fin 0)) hol) sales)"

definition test_holiday_impact ::
  "(npfloat list \<Rightarrow> npfloat list \<Rightarrow> npfloat \<times> npfloat) \<Rightarrow> dataframe
     \<Rightarrow> exn + holiday_result result_dict" where
  "test_holiday_impact ttest_ind df =
     (case getcol df ''is_holiday'' of Inl e \<Rightarrow> Inl e | Inr hol \<Rightarrow>
      case getcol df ''sales'' of Inl e \<Rightarrow> Inl e | Inr sales \<Rightarrow>
      Inr (let (holiday_days, regular_days) = holiday_groups hol sales
           in if length holiday_days = 0
              then ErrorDict ''No holiday data available''
              else
                let (t_stat, p_val) = ttest_ind holiday_days regular_days;
                    hm = pd_mean holiday_days;
                    rm = pd_mean regular_days;
                    lift = (if fgt rm (Fin 0) then fmul (fdiv (fsub hm rm) rm) (Fin 100)
                            else Fin 0)
                in ResultDict
                     \<lparr>t_statistic = t_stat, p_value = p_val,
                      significant = flt p_val (Fin (5 / 100)),
                      lift_percentage = lift,
                      holiday_mean = hm, regular_mean = rm\<rparr>))"

subsection \<open>forecast_confidence_intervals\<close>

text \<open>
  \<open>stats.norm.ppf\<close> (the normal quantile function) is a parameter.  \<open>np.std\<close> is the
  population standard deviation (\<open>ddof = 0\<close>).  The result is a frame of four columns on
  a range index.
\<close>

definition forecast_confidence_intervals ::
  "(real \<Rightarrow> npfloat) \<Rightarrow> npfloat list \<Rightarrow> npfloat list \<Rightarrow> real \<Rightarrow> dataframe" where
  "forecast_confidence_intervals norm_ppf forecasts historical_errors confidence =
     (let error_std = np_std 0 historical_errors;
          error_mean = np_mean historical_errors;
          z_score = norm_ppf ((1 + confidence) / 2);
          margin = fmul z_score error_std
      in \<lparr>index = map int [0..<length forecasts],
          columns =
            [(''forecast'', forecasts),
             (''lower_bound'', map (\<lambda>f. fsub f margin) forecasts),
             (''upper_bound'', map (\<lambda>f. fadd f margin) forecasts),
             (''confidence_level'', replicate (length forecasts) (Fin confidence))]\<rparr>)"

section \<open>Data processing\<close>

subsection \<open>Column operations of pandas\<close>

text \<open>
  \<open>ffill\<close> carries the last non-missing cell forward, \<open>bfill\<close> the next one backward,
  \<open>fillna(v)\<close> replaces every missing cell.  \<open>shift(k)\<close> moves a column down by \<open>k\<close>
  rows and fills the top with NaN.
\<close>

fun ffill_from :: "npfloat \<Rightarrow> npfloat list \<Rightarrow> npfloat list" where
  "ffill_from prev [] = []"
| "ffill_from prev (x # xs) =
     (if isnan x then prev # ffill_from prev xs else x # ffill_from x xs)"

definition ffill :: "npfloat list \<Rightarrow> npfloat list" where
  "ffill xs = ffill_from NaN xs"

definition bfill :: "npfloat list \<Rightarrow> npfloat list" where
  "bfill xs = rev (ffill (rev xs))"

definition fillna :: "npfloat \<Rightarrow> npfloat list \<Rightarrow> npfloat list" where
  "fillna v xs = map (\<lambda>x. if isnan x then v else x) xs"

definition shift :: "nat \<Rightarrow> npfloat list \<Rightarrow> npfloat list" where
  "shift k xs = replicate (min k (length xs)) NaN @ take (length xs - k) xs"

text \<open>
  \<open>rolling(w)\<close> with the default \<open>min_periods = w\<close>: the cell at row \<open>i\<close> is computed
  from the \<open>w\<close> cells at rows \<open>i - w + 1 .. i\<close> and is NaN when there are fewer than \<open>w\<close>
  rows or one of them is not a finite number (pandas turns infinities into NaN before a
  rolling aggregation).  \<open>rolling().std()\<close> uses \<open>ddof = 1\<close>.
\<close>

definition is_finite :: "npfloat \<Rightarrow> bool" where
  "is_finite a = (case a of Fin x \<Rightarrow> True | _ \<Rightarrow> False)"

definition rolling :: "nat \<Rightarrow> (npfloat list \<Rightarrow> npfloat) \<Rightarrow> npfloat list \<Rightarrow> npfloat list" where
  "rolling w agg xs =
     map (\<lambda>i. if i + 1 < w then NaN
              else let win = take w (drop (i + 1 - w) xs)
                   in if list_all is_finite win then agg win else NaN)
         [0..<length xs]"

definition rolling_mean :: "nat \<Rightarrow> npfloat list \<Rightarrow> npfloat list" where
  "rolling_mean w xs = rolling w np_mean xs"

definition rolling_std :: "nat \<Rightarrow> npfloat list \<Rightarrow> npfloat list" where
  "rolling_std w xs = rolling w (np_std 1) xs"

definition fill_frame :: "dataframe \<Rightarrow> dataframe" where
  "fill_frame df =
     df\<lparr>columns := map (\<lambda>(name, c). (name, fillna (Fin 0) (ffill (bfill c)))) (columns df)\<rparr>"

subsection \<open>Calendar fields of a date\<close>

text \<open>
  A date is the number of days since 1970-01-01 (a Thursday).  The fields pandas reads
  off a \<open>DatetimeIndex\<close> are computed in the proleptic Gregorian calendar;
  \<open>dayofweek\<close> counts from Monday = 0.
\<close>

definition civil_of_days :: "int \<Rightarrow> int \<times> int \<times> int" where
  "civil_of_days z =
     (let s = z + 719468;
          era = s div 146097;
          doe = s - era * 146097;
          yoe = (doe - doe div 1460 + doe div 36524 - doe div 146096) div 365;
          y = yoe + era * 400;
          doy = doe - (365 * yoe + yoe div 4 - yoe div 100);
          mp = (5 * doy + 2) div 153;
          d = doy - (153 * mp + 2) div 5 + 1;
          m = (if mp < 10 then mp + 3 else mp - 9)
      in (if m \<le> 2 then y + 1 else y, m, d))"

definition year_of :: "int \<Rightarrow> int" where
  "year_of z = fst (civil_of_days z)"

definition month_of :: "int \<Rightarrow> int" where
  "month_of z = fst (snd (civil_of_days z))"

definition day_of :: "int \<Rightarrow> int" where
  "day_of z = snd (snd (civil_of_days z))"

definition dayofweek :: "int \<Rightarrow> int" where
  "dayofweek z = (z + 3) mod 7"

definition quarter_of :: "int \<Rightarrow> int" where
  "quarter_of z = (month_of z - 1) div 3 + 1"

definition int_col :: "(int \<Rightarrow> int) \<Rightarrow> int list \<Rightarrow> npfloat list" where
  "int_col f ds = map (\<lambda>d. Fin (real_of_int (f d))) ds"

subsection \<open>engineer_features\<close>

text \<open>
  The raw sales table has one row per date, store and product family; only the three
  columns the function reads are kept, and their cells are finite numbers.  The oil
  table pairs a date with a price that may be missing, the holiday table is read for its
  dates only.
\<close>

record sales_row =
  s_date :: int
  s_sales :: real
  s_onpromotion :: real

text \<open>
  \<open>groupby("date")[c].sum().reset_index()\<close>: one row per date, in ascending date
  order, with the sum of the column over the rows of that date.
\<close>

definition groupby_sum :: "(int \<times> real) list \<Rightarrow> (int \<times> npfloat) list" where
  "groupby_sum kvs =
     map (\<lambda>k. (k, Fin (sum_list (map snd (filter (\<lambda>kv. fst kv = k) kvs)))))
         (sort (remdups (map fst kvs)))"

text \<open>
  \<open>left.merge(right, on="date", how="left")\<close>: the rows of the left table in their
  order, each paired with every right row of the same date, or with a missing cell when
  there is none.
\<close>

definition merge_left :: "(int \<times> 'a) list \<Rightarrow> (int \<times> npfloat) list \<Rightarrow> (int \<times> 'a \<times> npfloat) list" where
  "merge_left l r =
     concat (map (\<lambda>(k, a).
        case filter (\<lambda>kv. fst kv = k) r of
          [] \<Rightarrow> [(k, a, NaN)]
        | ms \<Rightarrow> map (\<lambda>kv. (k, a, snd kv)) ms) l)"

text \<open>
  Lines 48 to 60: the merged table, a row being (date, sales, promo_count, dcoilwtico,
  oil_price), sorted by date.  \<open>sort_values\<close> is modelled by a stable sort; pandas
  promises no order among rows of equal date.
\<close>

definition merged_table ::
  "sales_row list \<Rightarrow> (int \<times> npfloat) list
     \<Rightarrow> (int \<times> npfloat \<times> npfloat \<times> npfloat \<times> npfloat) list" where
  "merged_table sales_raw oil =
     (let daily_sales = groupby_sum (map (\<lambda>r. (s_date r, s_sales r)) sales_raw);
          promo = groupby_sum (map (\<lambda>r. (s_date r, s_onpromotion r)) sales_raw);
          m1 = map (\<lambda>(d, s, p). (d, s, if isnan p then Fin 0 else p))
                 (merge_left daily_sales promo);
          m2 = merge_left m1 oil;
          oil_price = bfill (ffill (map (\<lambda>(d, sp, c). c) m2));
          rows = map (\<lambda>((d, (s, p), c), cp). (d, s, p, c, cp)) (zip m2 oil_price)
      in sort_key fst rows)"

text \<open>Lines 63 to 87: the table with every derived column, before the final fill.\<close>

definition derived_features ::
  "sales_row list \<Rightarrow> (int \<times> npfloat) list \<Rightarrow> int list \<Rightarrow> dataframe" where
  "derived_features sales_raw oil holidays =
     (let rows = merged_table sales_raw oil;
          dates = map fst rows;
          sales = map (\<lambda>(d, s, p, c, cp). s) rows;
          yoy_sales = shift 365 sales
      in \<lparr>index = dates,
          columns =
            [(''sales'', sales),
             (''promo_count'', map (\<lambda>(d, s, p, c, cp). p) rows),
             (''dcoilwtico'', map (\<lambda>(d, s, p, c, cp). c) rows),
             (''oil_price'', map (\<lambda>(d, s, p, c, cp). cp) rows),
             (''year'', int_col year_of dates),
             (''month'', int_col month_of dates),
             (''day_of_week'', int_col dayofweek dates),
             (''day_of_month'', int_col day_of dates),
             (''is_weekend'', int_col (\<lambda>d. if 5 \<le> dayofweek d then 1 else 0) dates),
             (''quarter'', int_col quarter_of dates),
             (''lag_1'', shift 1 sales),
             (''lag_7'', shift 7 sales),
             (''lag_30'', shift 30 sales),
             (''roll_mean_7'', rolling_mean 7 (shift 1 sales)),
             (''roll_mean_30'', rolling_mean 30 (shift 1 sales)),
             (''roll_std_7'', rolling_std 7 (shift 1 sales)),
             (''roll_std_30'', rolling_std 30 (shift 1 sales)),
             (''is_holiday'', int_col (\<lambda>d. if d \<in> set holidays then 1 else 0) dates),
             (''yoy_sales'', yoy_sales),
             (''yoy_growth'',
                map (\<lambda>(s, y). fdiv (fsub s y) (fadd y (Fin 1))) (zip sales yoy_sales))]\<rparr>)"

text \<open>Line 90: \<open>df.bfill().ffill().fillna(0)\<close>, on every column.\<close>

definition engineer_features ::
  "sales_row list \<Rightarrow> (int \<times> npfloat) list \<Rightarrow> int list \<Rightarrow> dataframe" where
  "engineer_features sales_raw oil holidays = fill_frame (derived_features sales_raw oil holidays)"

definition get_feature_columns :: "string list" where
  "get_feature_columns =
     [''oil_price'', ''promo_count'', ''is_holiday'', ''is_weekend'',
      ''year'', ''month'', ''day_of_week'', ''quarter'',
      ''lag_1'', ''lag_7'', ''lag_30'',
      ''roll_mean_7'', ''roll_mean_30'',
      ''roll_std_7'', ''roll_std_30'']"

subsection \<open>split_train_test\<close>

text \<open>
  \<open>df.loc[:split_date]\<close> and \<open>df.loc[split_date:]\<close> slice by label, both ends
  included.  On an index sorted by date (the table engineer_features returns) the slice
  runs up to the last row not after the label, and from the first row not before it.
\<close>

definition take_rows :: "nat \<Rightarrow> dataframe \<Rightarrow> dataframe" where
  "take_rows k df =
     \<lparr>index = take k (index df), columns = map (\<lambda>(name, c). (name, take k c)) (columns df)\<rparr>"

definition drop_rows :: "nat \<Rightarrow> dataframe \<Rightarrow> dataframe" where
  "drop_rows k df =
     \<lparr>index = drop k (index df), columns = map (\<lambda>(name, c). (name, drop k c)) (columns df)\<rparr>"

definition split_train_test :: "dataframe \<Rightarrow> int \<Rightarrow> dataframe \<times> dataframe" where
  "split_train_test df split_date =
     (let train = take_rows (length (takeWhile (\<lambda>d. d \<le> split_date) (index df))) df;
          test = drop_rows (length (takeWhile (\<lambda>d. d < split_date) (index df))) df
      in (train, test))"

section \<open>Dashboard script\<close>

subsection \<open>Scenario transform\<close>

text \<open>
  \<open>df[name] = column\<close> replaces the column of that name where it stands, or appends it.
  Lines 269 to 271 of the script copy the test features and scale two of their columns.
\<close>

definition setcol :: "string \<Rightarrow> npfloat list \<Rightarrow> dataframe \<Rightarrow> dataframe" where
  "setcol name c df = df\<lparr>columns := AList.update name c (columns df)\<rparr>"

definition scale :: "real \<Rightarrow> npfloat list \<Rightarrow> npfloat list" where
  "scale k c = map (\<lambda>x. fmul x (Fin k)) c"

definition scenario_df :: "dataframe \<Rightarrow> real \<Rightarrow> real \<Rightarrow> exn + dataframe" where
  "scenario_df X_test promo_change oil_change =
     (case getcol X_test ''promo_count'' of Inl e \<Rightarrow> Inl e | Inr pc \<Rightarrow>
      let df1 = setcol ''promo_count'' (scale (1 + promo_change / 100) pc) X_test
      in case getcol df1 ''oil_price'' of Inl e \<Rightarrow> Inl e | Inr oc \<Rightarrow>
         Inr (setcol ''oil_price'' (scale (1 + oil_change / 100) oc) df1))"

subsection \<open>Baseline predictions\<close>

text \<open>
  Lines 132 to 137, in get_trained_models.  \<open>values[-test_size:]\<close> is the whole array
  when \<open>test_size\<close> is 0 or exceeds its length.  \<open>np.pad(a, (0, k), mode='edge')\<close>
  appends \<open>k\<close> copies of the last element, and raises \<open>ValueError\<close> on an empty array.
\<close>

definition np_pad_edge :: "npfloat list \<Rightarrow> nat \<Rightarrow> exn + npfloat list" where
  "np_pad_edge a k =
     (if a = [] \<and> 0 < k
      then Inl (ValueError ''cannot extend empty axis 0 using modes other than constant or empty'')
      else Inr (a @ replicate k (last a)))"

definition baseline_pred :: "npfloat list \<Rightarrow> nat \<Rightarrow> exn + npfloat list" where
  "baseline_pred lag_1 test_size =
     (let bp = (if test_size = 0 then lag_1 else drop (length lag_1 - test_size) lag_1)
      in if length bp < test_size
         then (case np_pad_edge bp (max 0 (test_size - length bp)) of
                 Inl e \<Rightarrow> Inl e
               | Inr padded \<Rightarrow> Inr (take test_size padded))
         else Inr (take test_size bp))"

section \<open>Correlation screening\<close>

text \<open>
  \<open>stats.pearsonr\<close> refuses two samples of different lengths, or of fewer than two
  observations, with a \<open>ValueError\<close>; what it computes otherwise (the pair of the
  coefficient and its p-value) is a parameter.
\<close>

definition scipy_pearsonr ::
  "(npfloat list \<Rightarrow> npfloat list \<Rightarrow> npfloat \<times> npfloat) \<Rightarrow> npfloat list \<Rightarrow> npfloat list
     \<Rightarrow> exn + npfloat \<times> npfloat" where
  "scipy_pearsonr pearson x y =
     (if length x \<noteq> length y then Inl (ValueError ''x and y must have the same length.'')
      else if length x < 2 then Inl (ValueError ''x and y must have length at least 2.'')
      else Inr (pearson x y))"

record corr_row =
  feature :: string
  correlation :: npfloat
  corr_p_value :: npfloat
  corr_significant :: bool
  strength :: npfloat

text \<open>The loop of lines 145 to 152; an exception ends it.\<close>

fun correlate_columns ::
  "(npfloat list \<Rightarrow> npfloat list \<Rightarrow> npfloat \<times> npfloat) \<Rightarrow> dataframe \<Rightarrow> string
     \<Rightarrow> (string \<times> npfloat list) list \<Rightarrow> exn + (npfloat \<times> npfloat) list" where
  "correlate_columns pearson df target_col [] = Inr []"
| "correlate_columns pearson df target_col ((name, c) # rest) =
     (if 10 < length (dropna c)
      then (case getcol df target_col of Inl e \<Rightarrow> Inl e | Inr t \<Rightarrow>
            case scipy_pearsonr pearson (dropna t) (dropna c) of Inl e \<Rightarrow> Inl e | Inr rp \<Rightarrow>
            case correlate_columns pearson df target_col rest of Inl e \<Rightarrow> Inl e
            | Inr rps \<Rightarrow> Inr (rp # rps))
      else (case correlate_columns pearson df target_col rest of Inl e \<Rightarrow> Inl e
            | Inr rps \<Rightarrow> Inr ((NaN, NaN) # rps)))"

text \<open>
  \<open>sort_values('Strength', ascending=False)\<close>: descending, rows of equal strength in
  their original order (pandas promises no order among them).
\<close>

fun insert_by_strength :: "corr_row \<Rightarrow> corr_row list \<Rightarrow> corr_row list" where
  "insert_by_strength r [] = [r]"
| "insert_by_strength r (y # ys) =
     (if flt (strength r) (strength y) then y # insert_by_strength r ys else r # y # ys)"

fun sort_by_strength :: "corr_row list \<Rightarrow> corr_row list" where
  "sort_by_strength [] = []"
| "sort_by_strength (r # rs) = insert_by_strength r (sort_by_strength rs)"

definition corr_row_of :: "string \<times> npfloat list \<Rightarrow> npfloat \<times> npfloat \<Rightarrow> corr_row" where
  "corr_row_of nc rp =
     \<lparr>feature = fst nc, correlation = fst rp, corr_p_value = snd rp,
      corr_significant = flt (snd rp) (Fin (5 / 100)),
      strength = (if \<not> isnan (fst rp) then fabs (fst rp) else Fin 0)\<rparr>"

definition calculate_correlations ::
  "(npfloat list \<Rightarrow> npfloat list \<Rightarrow> npfloat \<times> npfloat) \<Rightarrow> dataframe \<Rightarrow> string \<Rightarrow> nat
     \<Rightarrow> exn + corr_row list" where
  "calculate_correlations pearson df target_col top_n =
     (let numeric_cols = filter (\<lambda>nc. fst nc \<noteq> target_col) (columns df)
      in case correlate_columns pearson df target_col numeric_cols of
           Inl e \<Rightarrow> Inl e
         | Inr rps \<Rightarrow> Inr (take top_n (sort_by_strength (map2 corr_row_of numeric_cols rps))))"

section \<open>Reading results, and closed instances\<close>

definition returns_error :: "exn + 'a result_dict \<Rightarrow> bool" where
  "returns_error r = (case r of Inr (ErrorDict m) \<Rightarrow> True | _ \<Rightarrow> False)"

definition result_of :: "exn + 'a result_dict \<Rightarrow> 'a option" where
  "result_of r = (case r of Inr (ResultDict x) \<Rightarrow> Some x | _ \<Rightarrow> None)"

text \<open>
  The theorems below hold for every value of the SciPy parameters.  A closed instance
  has to fix one.  For the t test and the t quantile it takes the function that answers
  NaN everywhere, and states only results that the parameter does not reach or that are
  NaN for SciPy as well; for the normal quantile it takes the value at 0.975, rounded to
  1.96.
\<close>

definition ttest_ind_nan :: "npfloat list \<Rightarrow> npfloat list \<Rightarrow> npfloat \<times> npfloat" where
  "ttest_ind_nan a b = (NaN, NaN)"

definition t_ppf_nan :: "real \<Rightarrow> int \<Rightarrow> npfloat" where
  "t_ppf_nan q d = NaN"

definition norm_ppf_975 :: "real \<Rightarrow> npfloat" where
  "norm_ppf_975 q = (if q = 975 / 1000 then Fin (196 / 100) else NaN)"

text \<open>
  Two days, the first with a promotion and a holiday and sales of 5, the second with
  neither and sales of 0: both groups of either test have one member, and the mean of
  the indicator-false group is 0.
\<close>

definition zero_base_frame :: dataframe where
  "zero_base_frame =
     \<lparr>index = [0, 1],
      columns = [(''sales'', [Fin 5, Fin 0]),
                 (''promo_count'', [Fin 1, Fin 0]),
                 (''is_holiday'', [Fin 1, Fin 0])]\<rparr>"

text \<open>
  Six days, three with a promotion (sales 9, 14, 19) and three without (sales 5, 10, 15):
  the means are 14 and 10, both standard deviations are 5, so Cohen's d is 4/5.
\<close>

definition threshold_frame :: dataframe where
  "threshold_frame =
     \<lparr>index = [0, 1, 2, 3, 4, 5],
      columns = [(''sales'', [Fin 9, Fin 14, Fin 19, Fin 5, Fin 10, Fin 15]),
                 (''promo_count'', [Fin 1, Fin 1, Fin 1, Fin 0, Fin 0, Fin 0])]\<rparr>"

text \<open>The same days with promotion sales of 95, 100, 105: Cohen's d is 18.\<close>

definition large_effect_frame :: dataframe where
  "large_effect_frame =
     \<lparr>index = [0, 1, 2, 3, 4, 5],
      columns = [(''sales'', [Fin 95, Fin 100, Fin 105, Fin 5, Fin 10, Fin 15]),
                 (''promo_count'', [Fin 1, Fin 1, Fin 1, Fin 0, Fin 0, Fin 0])]\<rparr>"

text \<open>A small table of features: two days, two exogenous columns and one lag column.\<close>

definition small_features :: dataframe where
  "small_features =
     \<lparr>index = [1, 2],
      columns = [(''oil_price'', [Fin 50, Fin 60]), (''promo_count'', [Fin 10, Fin 20]),
                 (''lag_1'', [Fin 3, Fin 4])]\<rparr>"

text \<open>A table of four consecutive days.\<close>

definition four_days :: dataframe where
  "four_days = \<lparr>index = [1, 2, 3, 4], columns = [(''sales'', [Fin 10, Fin 20, Fin 30, Fin 40])]\<rparr>"

text \<open>
  Twelve days with complete sales and a feature \<open>x\<close> whose last cell is missing: the
  feature has 11 observations.
\<close>

definition ragged_frame :: dataframe where
  "ragged_frame =
     \<lparr>index = [1, 2, 3, 4, 5, 6, 7, 8, 9, 10, 11, 12],
      columns =
        [(''sales'', [Fin 1, Fin 2, Fin 3, Fin 4, Fin 5, Fin 6, Fin 7, Fin 8, Fin 9, Fin 10,
                      Fin 11, Fin 12]),
         (''x'', [Fin 2, Fin 1, Fin 4, Fin 3, Fin 6, Fin 5, Fin 8, Fin 7, Fin 10, Fin 9,
                  Fin 12, NaN])]\<rparr>"

section \<open>Reading a table by date\<close>

text \<open>
  The cell of a column at the row of a given date (the first such row), and the tables
  that have a row for every calendar day between their first and last.
\<close>

fun position_of :: "int \<Rightarrow> int list \<Rightarrow> nat option" where
  "position_of d [] = None"
| "position_of d (x # xs) = (if x = d then Some 0 else map_option Suc (position_of d xs))"

definition cell_at :: "dataframe \<Rightarrow> string \<Rightarrow> int \<Rightarrow> npfloat option" where
  "cell_at df name d =
     (case getcol df name of
        Inl e \<Rightarrow> None
      | Inr c \<Rightarrow>
          (case position_of d (index df) of
             None \<Rightarrow> None
           | Some i \<Rightarrow> if i < length c then Some (c ! i) else None))"

fun consecutive_days :: "int list \<Rightarrow> bool" where
  "consecutive_days (d # e # ds) = (e = d + 1 \<and> consecutive_days (e # ds))"
| "consecutive_days ds = True"

text \<open>
  Raw sales of 400 days numbered 0 to 400 with day 370 missing, one row a day, the sales
  of day \<open>d\<close> being \<open>d\<close>; and the same without the gap.
\<close>

definition day_row :: "int \<Rightarrow> sales_row" where
  "day_row d = \<lparr>s_date = d, s_sales = real_of_int d, s_onpromotion = 0\<rparr>"

definition gapped_sales_raw :: "sales_row list" where
  "gapped_sales_raw = map day_row ([0..369] @ [371..400])"

definition daily_sales_raw :: "sales_row list" where
  "daily_sales_raw = map day_row [0..400]"

text \<open>
  Three days of raw sales (5, 6 and 7, one row a day) and an oil table that has no price
  for the second day.
\<close>

definition three_days_raw :: "sales_row list" where
  "three_days_raw =
     [\<lparr>s_date = 1, s_sales = 5, s_onpromotion = 0\<rparr>,
      \<lparr>s_date = 2, s_sales = 6, s_onpromotion = 1\<rparr>,
      \<lparr>s_date = 3, s_sales = 7, s_onpromotion = 0\<rparr>]"

definition three_days_oil :: "(int \<times> npfloat) list" where
  "three_days_oil = [(1, Fin 10), (3, Fin 20)]"

section \<open>Verification: arithmetic of the number model\<close>

lemmas np_eval = pd_mean_def pd_std_def dropna_def isnan_def np_std_def np_var_def np_mean_def
  fsum_def fsquare_def fsub_def fgt_def feq_def select_def sem_def

lemma fadd_NaN_right [simp]: "fadd a NaN = NaN"
  by (cases a) simp_all

lemma fmul_NaN_right [simp]: "fmul a NaN = NaN"
  by (cases a) simp_all

lemma fdiv_NaN_right [simp]: "fdiv a NaN = NaN"
  by (cases a) simp_all

lemma fsub_NaN [simp]: "fsub a NaN = NaN" "fsub NaN b = NaN"
  by (simp_all add: fsub_def)

lemma sqrt25: "sqrt 25 = 5"
  using real_sqrt_abs[of 5] by simp

lemma np_mean_single: "np_mean [v] = v"
  by (cases v) (simp_all add: np_eval)

lemma sem_short: "length vals < 2 \<Longrightarrow> sem vals = NaN"
proof (cases vals)
  case Nil
  then show ?thesis by (simp add: np_eval)
next
  case (Cons v vs)
  assume "length vals < 2"
  with Cons have vs: "vs = []" by simp
  show ?thesis unfolding Cons vs by (cases v) (simp_all add: np_eval)
qed

section \<open>Verification: the two-group tests\<close>

text \<open>What either test returns once its two columns are found.\<close>

lemma promo_unfold:
  assumes "getcol df ''promo_count'' = Inr pc" "getcol df ''sales'' = Inr sales"
  shows "test_promotion_impact tt df =
     Inr (if fst (promo_groups pc sales) = [] \<or> snd (promo_groups pc sales) = []
          then ErrorDict ''Insufficient data for comparison''
          else ResultDict
             \<lparr>t_statistic = fst (tt (fst (promo_groups pc sales)) (snd (promo_groups pc sales))),
              p_value = snd (tt (fst (promo_groups pc sales)) (snd (promo_groups pc sales))),
              significant = flt (snd (tt (fst (promo_groups pc sales)) (snd (promo_groups pc sales)))) (Fin (5 / 100)),
              lift_percentage = fmul (fdiv (fsub (pd_mean (fst (promo_groups pc sales))) (pd_mean (snd (promo_groups pc sales))))
                                   (pd_mean (snd (promo_groups pc sales)))) (Fin 100),
              promo_mean = pd_mean (fst (promo_groups pc sales)),
              no_promo_mean = pd_mean (snd (promo_groups pc sales)),
              cohens_d = fdiv (fsub (pd_mean (fst (promo_groups pc sales))) (pd_mean (snd (promo_groups pc sales))))
                              (pooled_std (fst (promo_groups pc sales)) (snd (promo_groups pc sales))),
              effect_size = effect_size_of (fdiv (fsub (pd_mean (fst (promo_groups pc sales))) (pd_mean (snd (promo_groups pc sales))))
                              (pooled_std (fst (promo_groups pc sales)) (snd (promo_groups pc sales))))\<rparr>)"
  using assms by (simp add: test_promotion_impact_def Let_def split_beta)

lemma holiday_unfold:
  assumes "getcol df ''is_holiday'' = Inr hol" "getcol df ''sales'' = Inr sales"
  shows "test_holiday_impact tt df =
     Inr (if fst (holiday_groups hol sales) = []
          then ErrorDict ''No holiday data available''
          else ResultDict
             \<lparr>t_statistic = fst (tt (fst (holiday_groups hol sales)) (snd (holiday_groups hol sales))),
              p_value = snd (tt (fst (holiday_groups hol sales)) (snd (holiday_groups hol sales))),
              significant = flt (snd (tt (fst (holiday_groups hol sales)) (snd (holiday_groups hol sales)))) (Fin (5 / 100)),
              lift_percentage =
                (if fgt (pd_mean (snd (holiday_groups hol sales))) (Fin 0)
                 then fmul (fdiv (fsub (pd_mean (fst (holiday_groups hol sales))) (pd_mean (snd (holiday_groups hol sales))))
                                   (pd_mean (snd (holiday_groups hol sales)))) (Fin 100)
                 else Fin 0),
              holiday_mean = pd_mean (fst (holiday_groups hol sales)),
              regular_mean = pd_mean (snd (holiday_groups hol sales))\<rparr>)"
  using assms by (simp add: test_holiday_impact_def Let_def split_beta)

lemma zb_cols:
  "getcol zero_base_frame ''sales'' = Inr [Fin 5, Fin 0]"
  "getcol zero_base_frame ''promo_count'' = Inr [Fin 1, Fin 0]"
  "getcol zero_base_frame ''is_holiday'' = Inr [Fin 1, Fin 0]"
  by (simp_all add: zero_base_frame_def getcol_def)

lemma zb_groups:
  "promo_groups [Fin 1, Fin 0] [Fin 5, Fin 0] = ([Fin 5], [Fin 0])"
  "holiday_groups [Fin 1, Fin 0] [Fin 5, Fin 0] = ([Fin 5], [Fin 0])"
  by (simp_all add: promo_groups_def holiday_groups_def np_eval)

text \<open>
  C1, as amended.  On a table that has the columns the tests read: the promotion test
  returns the error-tagged result exactly when one of its two groups is empty, and a
  result record exactly when neither is.  The holiday test returns the error-tagged
  result when its holiday group is empty, and a result record when neither group is
  empty.  A denominator of zero gives no error tag: the holiday test then reports a lift
  of 0 (as it does whenever the mean of the regular days is not greater than 0).
\<close>

theorem two_group_error_tag:
  assumes "getcol df ''sales'' = Inr sales"
    and "getcol df ''promo_count'' = Inr pc"
    and "getcol df ''is_holiday'' = Inr hol"
  shows "returns_error (test_promotion_impact tt df) =
           (fst (promo_groups pc sales) = [] \<or> snd (promo_groups pc sales) = [])
       \<and> (result_of (test_promotion_impact tt df) \<noteq> None) =
           (fst (promo_groups pc sales) \<noteq> [] \<and> snd (promo_groups pc sales) \<noteq> [])
       \<and> (fst (holiday_groups hol sales) = [] \<longrightarrow>
            test_holiday_impact tt df = Inr (ErrorDict ''No holiday data available''))
       \<and> (fst (holiday_groups hol sales) \<noteq> [] \<and> snd (holiday_groups hol sales) \<noteq> [] \<longrightarrow>
            (\<exists>r. test_holiday_impact tt df = Inr (ResultDict r)
               \<and> (\<not> fgt (pd_mean (snd (holiday_groups hol sales))) (Fin 0) \<longrightarrow>
                    lift_percentage r = Fin 0)))"
  by (simp add: promo_unfold[OF assms(2) assms(1)] holiday_unfold[OF assms(3) assms(1)]
        returns_error_def result_of_def)

text \<open>The theorem at the two-day table, where every group has one member.\<close>

theorem two_group_error_tag_witness:
  "getcol zero_base_frame ''sales'' = Inr [Fin 5, Fin 0]
   \<and> returns_error (test_promotion_impact ttest_ind_nan zero_base_frame) = False
   \<and> (result_of (test_promotion_impact ttest_ind_nan zero_base_frame) \<noteq> None) = True
   \<and> (\<exists>r. test_holiday_impact ttest_ind_nan zero_base_frame = Inr (ResultDict r)
          \<and> lift_percentage r = Fin 0)"
  using two_group_error_tag[OF zb_cols, of ttest_ind_nan]
  by (simp add: zb_cols zb_groups np_eval)

text \<open>
  C1 as stated fails at the two-day table: the mean of the indicator-false group is 0,
  yet both tests return a result record and no error tag.  The promotion test divides
  by the zero mean (lift = +infinity), the holiday test reports a lift of 0.
\<close>

theorem zero_denominator_no_error_tag:
  "pd_mean (snd (promo_groups [Fin 1, Fin 0] [Fin 5, Fin 0])) = Fin 0
   \<and> test_promotion_impact ttest_ind_nan zero_base_frame =
       Inr (ResultDict \<lparr>t_statistic = NaN, p_value = NaN, significant = False,
              lift_percentage = PInf, promo_mean = Fin 5, no_promo_mean = Fin 0,
              cohens_d = NaN, effect_size = ''small''\<rparr>)
   \<and> test_holiday_impact ttest_ind_nan zero_base_frame =
       Inr (ResultDict \<lparr>t_statistic = NaN, p_value = NaN, significant = False,
              lift_percentage = Fin 0, holiday_mean = Fin 5, regular_mean = Fin 0\<rparr>)"
  by (simp add: promo_unfold[OF zb_cols(2) zb_cols(1)] holiday_unfold[OF zb_cols(3) zb_cols(1)]
       zb_groups ttest_ind_nan_def pooled_std_def effect_size_of_def np_eval)

lemma effect_size_of_cases:
  "(effect_size_of d = ''large'') = fgt (fabs d) (Fin (8 / 10))"
  "(effect_size_of d = ''medium'') = (\<not> fgt (fabs d) (Fin (8 / 10)) \<and> fgt (fabs d) (Fin (5 / 10)))"
  "(effect_size_of d = ''small'') = (\<not> fgt (fabs d) (Fin (5 / 10)))"
  by (simp_all add: effect_size_of_def fgt_def, (cases d; simp)+)

lemma effect_size_of_Fin:
  "(effect_size_of (Fin x) = ''large'') = (8 / 10 < \<bar>x\<bar>)"
  "(effect_size_of (Fin x) = ''medium'') = (5 / 10 < \<bar>x\<bar> \<and> \<bar>x\<bar> \<le> 8 / 10)"
  "(effect_size_of (Fin x) = ''small'') = (\<bar>x\<bar> \<le> 5 / 10)"
  by (auto simp add: effect_size_of_def fgt_def)

lemma three_cols:
  "getcol threshold_frame ''promo_count'' = Inr [Fin 1, Fin 1, Fin 1, Fin 0, Fin 0, Fin 0]"
  "getcol threshold_frame ''sales'' = Inr [Fin 9, Fin 14, Fin 19, Fin 5, Fin 10, Fin 15]"
  "getcol large_effect_frame ''promo_count'' = Inr [Fin 1, Fin 1, Fin 1, Fin 0, Fin 0, Fin 0]"
  "getcol large_effect_frame ''sales'' = Inr [Fin 95, Fin 100, Fin 105, Fin 5, Fin 10, Fin 15]"
  by (simp_all add: threshold_frame_def large_effect_frame_def getcol_def)

lemma three_groups:
  "promo_groups [Fin 1, Fin 1, Fin 1, Fin 0, Fin 0, Fin 0] [a, b, c, d, e, f] = ([a, b, c], [d, e, f])"
  by (simp add: promo_groups_def np_eval)

lemma three_stats:
  "pd_mean [Fin 9, Fin 14, Fin 19] = Fin 14"
  "pd_mean [Fin 95, Fin 100, Fin 105] = Fin 100"
  "pd_mean [Fin 5, Fin 10, Fin 15] = Fin 10"
  "pd_std [Fin 9, Fin 14, Fin 19] = Fin 5"
  "pd_std [Fin 95, Fin 100, Fin 105] = Fin 5"
  "pd_std [Fin 5, Fin 10, Fin 15] = Fin 5"
  by (simp_all add: np_eval sqrt25)

lemma three_pooled:
  "pooled_std [Fin 9, Fin 14, Fin 19] [Fin 5, Fin 10, Fin 15] = Fin 5"
  "pooled_std [Fin 95, Fin 100, Fin 105] [Fin 5, Fin 10, Fin 15] = Fin 5"
  by (simp_all add: pooled_std_def three_stats fsquare_def sqrt25)

lemma large_effect_result:
  "test_promotion_impact ttest_ind_nan large_effect_frame =
     Inr (ResultDict \<lparr>t_statistic = NaN, p_value = NaN, significant = False,
            lift_percentage = Fin 900, promo_mean = Fin 100, no_promo_mean = Fin 10,
            cohens_d = Fin 18, effect_size = ''large''\<rparr>)"
  by (simp add: promo_unfold[OF three_cols(3) three_cols(4)] three_groups three_stats
        three_pooled ttest_ind_nan_def effect_size_of_def fsub_def fgt_def)

text \<open>
  C3, as amended.  For every result record of the promotion test: Cohen's d is the
  difference of the two group means over the pooled standard deviation, the lift is
  (mean_A - mean_B) / mean_B * 100, and the effect size is "large" exactly when
  |d| > 0.8, "medium" exactly when 0.5 < |d| <= 0.8, and "small" otherwise (|d| <= 0.5, or
  d is NaN).  The holiday test reports no effect size; its lift is the same quotient
  when the mean of the regular days is greater than 0, and 0 otherwise.
\<close>

theorem promotion_effect_size_and_lift:
  assumes "getcol df ''promo_count'' = Inr pc"
    and "getcol df ''sales'' = Inr sales"
    and "test_promotion_impact tt df = Inr (ResultDict r)"
  shows "promo_mean r = pd_mean (fst (promo_groups pc sales))
       \<and> no_promo_mean r = pd_mean (snd (promo_groups pc sales))
       \<and> cohens_d r = fdiv (fsub (promo_mean r) (no_promo_mean r))
                         (pooled_std (fst (promo_groups pc sales)) (snd (promo_groups pc sales)))
       \<and> lift_percentage r =
           fmul (fdiv (fsub (promo_mean r) (no_promo_mean r)) (no_promo_mean r)) (Fin 100)
       \<and> (effect_size r = ''large'') = fgt (fabs (cohens_d r)) (Fin (8 / 10))
       \<and> (effect_size r = ''medium'') =
           (\<not> fgt (fabs (cohens_d r)) (Fin (8 / 10)) \<and> fgt (fabs (cohens_d r)) (Fin (5 / 10)))
       \<and> (effect_size r = ''small'') = (\<not> fgt (fabs (cohens_d r)) (Fin (5 / 10)))
       \<and> (\<forall>x. cohens_d r = Fin x \<longrightarrow>
            (effect_size r = ''large'') = (8 / 10 < \<bar>x\<bar>)
          \<and> (effect_size r = ''medium'') = (5 / 10 < \<bar>x\<bar> \<and> \<bar>x\<bar> \<le> 8 / 10)
          \<and> (effect_size r = ''small'') = (\<bar>x\<bar> \<le> 5 / 10))
       \<and> (\<forall>hol h. getcol df ''is_holiday'' = Inr hol
                 \<and> test_holiday_impact tt df = Inr (ResultDict h) \<longrightarrow>
            lift_percentage h =
              (if fgt (regular_mean h) (Fin 0)
               then fmul (fdiv (fsub (holiday_mean h) (regular_mean h)) (regular_mean h)) (Fin 100)
               else Fin 0))"
proof -
  let ?a = "fst (promo_groups pc sales)" and ?b = "snd (promo_groups pc sales)"
  let ?d = "fdiv (fsub (pd_mean ?a) (pd_mean ?b)) (pooled_std ?a ?b)"
  from assms(3) have r:
    "r = \<lparr>t_statistic = fst (tt ?a ?b), p_value = snd (tt ?a ?b),
          significant = flt (snd (tt ?a ?b)) (Fin (5 / 100)),
          lift_percentage = fmul (fdiv (fsub (pd_mean ?a) (pd_mean ?b)) (pd_mean ?b)) (Fin 100),
          promo_mean = pd_mean ?a, no_promo_mean = pd_mean ?b,
          cohens_d = ?d, effect_size = effect_size_of ?d\<rparr>"
    unfolding promo_unfold[OF assms(1) assms(2)] by (simp split: if_splits)
  have es: "effect_size r = effect_size_of (cohens_d r)" by (simp add: r)
  have hol: "lift_percentage h =
              (if fgt (regular_mean h) (Fin 0)
               then fmul (fdiv (fsub (holiday_mean h) (regular_mean h)) (regular_mean h)) (Fin 100)
               else Fin 0)"
    if "getcol df ''is_holiday'' = Inr hol" "test_holiday_impact tt df = Inr (ResultDict h)"
    for hol h
    using that(2) unfolding holiday_unfold[OF that(1) assms(2)]
    by (auto split: if_splits)
  have core: "promo_mean r = pd_mean ?a \<and> no_promo_mean r = pd_mean ?b
       \<and> cohens_d r = fdiv (fsub (promo_mean r) (no_promo_mean r)) (pooled_std ?a ?b)
       \<and> lift_percentage r =
           fmul (fdiv (fsub (promo_mean r) (no_promo_mean r)) (no_promo_mean r)) (Fin 100)"
    by (simp add: r)
  show ?thesis
    unfolding es using effect_size_of_cases[of "cohens_d r"] effect_size_of_Fin core hol
    by simp
qed

text \<open>The theorem at a table whose promotion days sell ten times more.\<close>

theorem promotion_effect_size_and_lift_witness:
  "getcol large_effect_frame ''promo_count'' = Inr [Fin 1, Fin 1, Fin 1, Fin 0, Fin 0, Fin 0]
   \<and> getcol large_effect_frame ''sales'' = Inr [Fin 95, Fin 100, Fin 105, Fin 5, Fin 10, Fin 15]
   \<and> map_option cohens_d (result_of (test_promotion_impact ttest_ind_nan large_effect_frame))
       = Some (Fin 18)
   \<and> map_option effect_size (result_of (test_promotion_impact ttest_ind_nan large_effect_frame))
       = Some ''large''
   \<and> map_option lift_percentage (result_of (test_promotion_impact ttest_ind_nan large_effect_frame))
       = Some (Fin 900)
   \<and> fgt (fabs (Fin 18)) (Fin (8 / 10))
   \<and> Fin 900 = fmul (fdiv (fsub (Fin 100) (Fin 10)) (Fin 10)) (Fin 100)"
  using promotion_effect_size_and_lift[OF three_cols(3) three_cols(4) large_effect_result]
  by (simp add: large_effect_result three_cols three_groups three_stats three_pooled fgt_def
        fsub_def result_of_def)

text \<open>
  C3 as stated fails at the threshold: with promotion sales 9, 14, 19 and other sales
  5, 10, 15 Cohen's d is exactly 0.8, which the claim calls "large"; the code compares
  with \<open>>\<close> and answers "medium".
\<close>

theorem effect_size_at_threshold:
  "map_option cohens_d (result_of (test_promotion_impact ttest_ind_nan threshold_frame))
     = Some (Fin (8 / 10))
   \<and> map_option effect_size (result_of (test_promotion_impact ttest_ind_nan threshold_frame))
     = Some ''medium''"
  by (simp add: promo_unfold[OF three_cols(1) three_cols(2)] three_groups three_stats
        three_pooled ttest_ind_nan_def effect_size_of_def fsub_def fgt_def result_of_def)

section \<open>Verification: confidence intervals\<close>

text \<open>
  C2, as amended.  The function never returns an error indicator: for every list it
  returns the tuple (mean - h, mean + h, mean, std_err) with
  h = std_err * t.ppf((1 + confidence) / 2, n - 1), the Student-t quantile with n - 1
  degrees of freedom.  For a list of fewer than 2 elements the standard error and both
  bounds are NaN; the mean is NaN for the empty list and the element itself for a list
  of one.
\<close>

theorem confidence_interval_tuple:
  "calculate_confidence_interval t_ppf vals c =
     (fsub (np_mean vals) (fmul (sem vals) (t_ppf ((1 + c) / 2) (int (length vals) - 1))),
      fadd (np_mean vals) (fmul (sem vals) (t_ppf ((1 + c) / 2) (int (length vals) - 1))),
      np_mean vals, sem vals)
   \<and> (length vals < 2 \<longrightarrow>
        calculate_confidence_interval t_ppf vals c = (NaN, NaN, np_mean vals, NaN))
   \<and> np_mean [] = NaN \<and> np_mean [v] = v"
  by (simp add: calculate_confidence_interval_def Let_def sem_short np_mean_single)
     (simp add: np_eval)

text \<open>The theorem at the list of the single value 3.\<close>

theorem confidence_interval_tuple_witness:
  "length [Fin 3] < 2
   \<and> calculate_confidence_interval t_ppf_nan [Fin 3] (95 / 100) = (NaN, NaN, np_mean [Fin 3], NaN)
   \<and> np_mean [Fin 3] = Fin 3"
  using confidence_interval_tuple[of t_ppf_nan "[Fin 3]" "95 / 100" "Fin 3"]
  by (simp add: sem_short)

text \<open>
  C2 as stated fails at the list of the single value 3: the function returns a tuple,
  whose mean is the number 3, and no error indicator.
\<close>

theorem confidence_interval_single_value:
  "calculate_confidence_interval t_ppf_nan [Fin 3] (95 / 100) = (NaN, NaN, Fin 3, NaN)"
  by (simp add: calculate_confidence_interval_def np_eval t_ppf_nan_def)

lemma shifted_errors:
  "np_std 0 [Fin 1, Fin 3] = Fin 1" "np_std 0 [Fin 11, Fin 13] = Fin 1"
  "np_mean [Fin 1, Fin 3] = Fin 2" "np_mean [Fin 11, Fin 13] = Fin 12"
  by (simp_all add: np_eval)

text \<open>
  C10.  Two samples of historical errors with the same standard deviation give the same
  frame of intervals, whatever their means: the bounds are forecast - margin and
  forecast + margin with margin = z * std, centred on the forecast itself.
\<close>

theorem forecast_intervals_ignore_error_mean:
  "(np_std 0 e1 = np_std 0 e2 \<longrightarrow>
      forecast_confidence_intervals norm_ppf fs e1 c = forecast_confidence_intervals norm_ppf fs e2 c)
   \<and> getcol (forecast_confidence_intervals norm_ppf fs e1 c) ''forecast'' = Inr fs
   \<and> getcol (forecast_confidence_intervals norm_ppf fs e1 c) ''lower_bound'' =
       Inr (map (\<lambda>f. fsub f (fmul (norm_ppf ((1 + c) / 2)) (np_std 0 e1))) fs)
   \<and> getcol (forecast_confidence_intervals norm_ppf fs e1 c) ''upper_bound'' =
       Inr (map (\<lambda>f. fadd f (fmul (norm_ppf ((1 + c) / 2)) (np_std 0 e1))) fs)"
  by (simp add: forecast_confidence_intervals_def getcol_def Let_def)

text \<open>
  The theorem at the error samples 1, 3 and 11, 13: standard deviation 1 for both, means
  2 and 12.
\<close>

theorem forecast_intervals_ignore_error_mean_witness:
  "np_std 0 [Fin 1, Fin 3] = np_std 0 [Fin 11, Fin 13]
   \<and> np_mean [Fin 1, Fin 3] = Fin 2 \<and> np_mean [Fin 11, Fin 13] = Fin 12
   \<and> forecast_confidence_intervals norm_ppf_975 [Fin 100] [Fin 1, Fin 3] (95 / 100)
     = forecast_confidence_intervals norm_ppf_975 [Fin 100] [Fin 11, Fin 13] (95 / 100)
   \<and> getcol (forecast_confidence_intervals norm_ppf_975 [Fin 100] [Fin 1, Fin 3] (95 / 100))
       ''lower_bound'' = Inr [Fin (9804 / 100)]
   \<and> getcol (forecast_confidence_intervals norm_ppf_975 [Fin 100] [Fin 1, Fin 3] (95 / 100))
       ''upper_bound'' = Inr [Fin (10196 / 100)]"
proof -
  note t = forecast_intervals_ignore_error_mean[of "[Fin 1, Fin 3]" "[Fin 11, Fin 13]"
      norm_ppf_975 "[Fin 100]" "95 / 100"]
  have same: "forecast_confidence_intervals norm_ppf_975 [Fin 100] [Fin 1, Fin 3] (95 / 100)
     = forecast_confidence_intervals norm_ppf_975 [Fin 100] [Fin 11, Fin 13] (95 / 100)"
    using t[THEN conjunct1] by (simp add: shifted_errors)
  have bounds: "getcol (forecast_confidence_intervals norm_ppf_975 [Fin 100] [Fin 1, Fin 3] (95 / 100))
       ''lower_bound'' = Inr [Fin (9804 / 100)]"
    "getcol (forecast_confidence_intervals norm_ppf_975 [Fin 100] [Fin 1, Fin 3] (95 / 100))
       ''upper_bound'' = Inr [Fin (10196 / 100)]"
    using t[THEN conjunct2] by (simp_all add: shifted_errors norm_ppf_975_def fsub_def)
  show ?thesis using same bounds by (simp add: shifted_errors)
qed

section \<open>Verification: the dashboard script\<close>

text \<open>
  C8.  For a non-empty lag-1 history the baseline has exactly the requested length: a
  horizon beyond the history is filled by repeating the last element on the right, a
  horizon within it takes the last elements of the history.
\<close>

theorem baseline_pred_length:
  assumes "lag_1 \<noteq> []"
  shows "\<exists>bp. baseline_pred lag_1 n = Inr bp \<and> length bp = n
            \<and> (length lag_1 < n \<longrightarrow> bp = lag_1 @ replicate (n - length lag_1) (last lag_1))
            \<and> (n \<le> length lag_1 \<longrightarrow> bp = drop (length lag_1 - n) lag_1)"
proof (cases "length lag_1 < n")
  case True
  then have "baseline_pred lag_1 n = Inr (lag_1 @ replicate (n - length lag_1) (last lag_1))"
    using assms by (simp add: baseline_pred_def np_pad_edge_def Let_def)
  with True show ?thesis by simp
next
  case False
  then have "baseline_pred lag_1 n = Inr (drop (length lag_1 - n) lag_1)"
    by (simp add: baseline_pred_def Let_def)
  with False show ?thesis by simp
qed

text \<open>The theorem at a history of three days, for horizons of five and of two days.\<close>

theorem baseline_pred_length_witness:
  "[Fin 1, Fin 2, Fin 3] \<noteq> []
   \<and> baseline_pred [Fin 1, Fin 2, Fin 3] 5 = Inr [Fin 1, Fin 2, Fin 3, Fin 3, Fin 3]
   \<and> baseline_pred [Fin 1, Fin 2, Fin 3] 2 = Inr [Fin 2, Fin 3]"
proof -
  have ne: "[Fin 1, Fin 2, Fin 3] \<noteq> []" by simp
  from baseline_pred_length[OF ne, of 5] have a: "baseline_pred [Fin 1, Fin 2, Fin 3] 5 = Inr [Fin 1, Fin 2, Fin 3, Fin 3, Fin 3]"
    by (auto simp add: numeral_eq_Suc)
  from baseline_pred_length[OF ne, of 2] have b: "baseline_pred [Fin 1, Fin 2, Fin 3] 2 = Inr [Fin 2, Fin 3]"
    by (auto simp add: numeral_eq_Suc)
  from ne a b show ?thesis by simp
qed


lemma fmul_one [simp]: "fmul x (Fin 1) = x"
  by (cases x) simp_all

lemma scale_one [simp]: "scale 1 c = c"
  by (simp add: scale_def)

lemma getcol_setcol:
  "getcol (setcol name c df) name' = (if name' = name then Inr c else getcol df name')"
  by (simp add: getcol_def setcol_def update_conv')

lemma setcol_same: "getcol df name = Inr c \<Longrightarrow> setcol name c df = df"
  by (auto simp add: getcol_def setcol_def update_triv split: option.splits)

lemma setcol_names: "getcol df name = Inr c \<Longrightarrow> map fst (columns (setcol name c' df)) = map fst (columns df)"
  by (auto simp add: getcol_def setcol_def update_keys split: option.splits dest: map_of_SomeD
        intro: rev_image_eqI)

text \<open>
  C7.  On a table that has the two columns, the scenario transform multiplies every cell
  of promo_count by 1 + promo_change / 100 and every cell of oil_price by
  1 + oil_change / 100, and changes nothing else: the index, the names and order of the
  columns, and every other column are those of the input.  With both changes 0 it
  returns the input table.
\<close>

theorem scenario_df_frame:
  assumes "getcol X ''promo_count'' = Inr pc" and "getcol X ''oil_price'' = Inr oc"
  shows "\<exists>S. scenario_df X p q = Inr S
          \<and> index S = index X
          \<and> map fst (columns S) = map fst (columns X)
          \<and> getcol S ''promo_count'' = Inr (scale (1 + p / 100) pc)
          \<and> getcol S ''oil_price'' = Inr (scale (1 + q / 100) oc)
          \<and> (\<forall>name. name \<noteq> ''promo_count'' \<and> name \<noteq> ''oil_price'' \<longrightarrow> getcol S name = getcol X name)
          \<and> scenario_df X 0 0 = Inr X"
proof -
  let ?df1 = "setcol ''promo_count'' (scale (1 + p / 100) pc) X"
  let ?S = "setcol ''oil_price'' (scale (1 + q / 100) oc) ?df1"
  have oc1: "getcol ?df1 ''oil_price'' = Inr oc" using assms(2) by (simp add: getcol_setcol)
  have S: "scenario_df X p q = Inr ?S"
    by (simp add: scenario_df_def assms(1) oc1 Let_def)
  have names: "map fst (columns ?S) = map fst (columns X)"
    using setcol_names[OF oc1] setcol_names[OF assms(1)] by simp
  have idx: "index ?S = index X" by (simp add: setcol_def)
  have id0: "scenario_df X 0 0 = Inr X"
    by (simp add: scenario_df_def assms Let_def setcol_same)
  show ?thesis
    using S names idx id0 by (simp add: getcol_setcol)
qed

text \<open>The theorem at the small table, for +50 percent promotions and -10 percent oil.\<close>

theorem scenario_df_frame_witness:
  "getcol small_features ''promo_count'' = Inr [Fin 10, Fin 20]
   \<and> getcol small_features ''oil_price'' = Inr [Fin 50, Fin 60]
   \<and> scenario_df small_features 50 (- 10) =
       Inr \<lparr>index = [1, 2],
            columns = [(''oil_price'', [Fin 45, Fin 54]), (''promo_count'', [Fin 15, Fin 30]),
                       (''lag_1'', [Fin 3, Fin 4])]\<rparr>
   \<and> scenario_df small_features 0 0 = Inr small_features"
proof -
  have a: "getcol small_features ''promo_count'' = Inr [Fin 10, Fin 20]"
    and b: "getcol small_features ''oil_price'' = Inr [Fin 50, Fin 60]"
    by (simp_all add: small_features_def getcol_def)
  from scenario_df_frame[OF a b, of 50 "- 10"] have id0: "scenario_df small_features 0 0 = Inr small_features"
    by blast
  have c: "scenario_df small_features 50 (- 10) =
       Inr \<lparr>index = [1, 2],
            columns = [(''oil_price'', [Fin 45, Fin 54]), (''promo_count'', [Fin 15, Fin 30]),
                       (''lag_1'', [Fin 3, Fin 4])]\<rparr>"
    by (simp add: scenario_df_def small_features_def getcol_def setcol_def scale_def Let_def)
  from a b c id0 show ?thesis by simp
qed

section \<open>Verification: the chronological split\<close>

lemma sorted_takeWhile_le:
  "sorted (xs :: int list) \<Longrightarrow> takeWhile (\<lambda>d. d \<le> c) xs = filter (\<lambda>d. d \<le> c) xs"
proof (induction xs)
  case Nil
  then show ?case by simp
next
  case (Cons x xs)
  show ?case
  proof (cases "x \<le> c")
    case True
    with Cons show ?thesis by simp
  next
    case False
    with Cons.prems have "\<forall>y\<in>set xs. \<not> y \<le> c" by auto
    with False show ?thesis by (simp add: filter_empty_conv)
  qed
qed

lemma sorted_dropWhile_less:
  "sorted (xs :: int list) \<Longrightarrow> dropWhile (\<lambda>d. d < c) xs = filter (\<lambda>d. c \<le> d) xs"
proof (induction xs)
  case Nil
  then show ?case by simp
next
  case (Cons x xs)
  show ?case
  proof (cases "x < c")
    case True
    with Cons show ?thesis by simp
  next
    case False
    with Cons.prems have "\<forall>y\<in>set xs. c \<le> y" by auto
    with False show ?thesis by simp
  qed
qed

lemma select_Cons [simp]:
  "select (b # bs) (x # xs) = (if b then x # select bs xs else select bs xs)"
  by (simp add: select_def)

lemma select_Nil [simp]: "select [] xs = []" "select bs [] = []"
  by (simp_all add: select_def)

lemma select_all_False: "\<forall>b\<in>set bs. \<not> b \<Longrightarrow> select bs xs = []"
  by (auto simp add: select_def filter_empty_conv dest: set_zip_leftD)

lemma select_all_True: "\<forall>b\<in>set bs. b \<Longrightarrow> length xs \<le> length bs \<Longrightarrow> select bs xs = xs"
proof (induction bs arbitrary: xs)
  case Nil
  then show ?case by simp
next
  case (Cons b bs)
  show ?case
  proof (cases xs)
    case Nil
    then show ?thesis by simp
  next
    case (Cons y ys)
    from Cons.prems have "\<forall>b\<in>set bs. b" "length ys \<le> length bs" "b"
      using Cons by auto
    with Cons.IH[of ys] have "select bs ys = ys" by blast
    with \<open>b\<close> Cons show ?thesis by simp
  qed
qed

lemma select_sorted_le:
  "sorted (idx :: int list) \<Longrightarrow> length col = length idx \<Longrightarrow>
     select (map (\<lambda>d. d \<le> c) idx) col = take (length (takeWhile (\<lambda>d. d \<le> c) idx)) col"
proof (induction idx arbitrary: col)
  case Nil
  then show ?case by simp
next
  case (Cons d ds)
  then obtain x xs where col: "col = x # xs" by (cases col) auto
  show ?case
  proof (cases "d \<le> c")
    case True
    with Cons col show ?thesis by simp
  next
    case False
    with Cons.prems have "\<forall>b\<in>set (map (\<lambda>d. d \<le> c) ds). \<not> b" by auto
    with False show ?thesis by (simp add: col select_all_False)
  qed
qed

lemma select_sorted_ge:
  "sorted (idx :: int list) \<Longrightarrow> length col = length idx \<Longrightarrow>
     select (map (\<lambda>d. c \<le> d) idx) col = drop (length (takeWhile (\<lambda>d. d < c) idx)) col"
proof (induction idx arbitrary: col)
  case Nil
  then show ?case by simp
next
  case (Cons d ds)
  then obtain x xs where col: "col = x # xs" by (cases col) auto
  show ?case
  proof (cases "d < c")
    case True
    with Cons col show ?thesis by simp
  next
    case False
    with Cons.prems have "\<forall>b\<in>set (map (\<lambda>d. c \<le> d) ds). b" by auto
    with False Cons.prems show ?thesis by (simp add: col select_all_True)
  qed
qed

lemma getcol_take_rows:
  "getcol df name = Inr col \<Longrightarrow> getcol (take_rows k df) name = Inr (take k col)"
  by (auto simp add: getcol_def take_rows_def map_of_map split: option.splits)

lemma getcol_drop_rows:
  "getcol df name = Inr col \<Longrightarrow> getcol (drop_rows k df) name = Inr (drop k col)"
  by (auto simp add: getcol_def drop_rows_def map_of_map split: option.splits)

text \<open>
  C6.  On a table sorted by date, the split returns as train exactly the rows with
  date <= cutoff and as test exactly the rows with date >= cutoff, in their order and
  with all columns; a cutoff date that is in the table is in both parts.
\<close>

theorem split_train_test_inclusive:
  assumes "sorted (index df)"
  shows "index (fst (split_train_test df c)) = filter (\<lambda>d. d \<le> c) (index df)
       \<and> index (snd (split_train_test df c)) = filter (\<lambda>d. c \<le> d) (index df)
       \<and> map fst (columns (fst (split_train_test df c))) = map fst (columns df)
       \<and> map fst (columns (snd (split_train_test df c))) = map fst (columns df)
       \<and> (\<forall>name col. getcol df name = Inr col \<and> length col = length (index df) \<longrightarrow>
            getcol (fst (split_train_test df c)) name = Inr (select (map (\<lambda>d. d \<le> c) (index df)) col)
          \<and> getcol (snd (split_train_test df c)) name = Inr (select (map (\<lambda>d. c \<le> d) (index df)) col))
       \<and> (c \<in> set (index df) \<longrightarrow>
            c \<in> set (index (fst (split_train_test df c)))
          \<and> c \<in> set (index (snd (split_train_test df c))))"
proof -
  let ?k = "length (takeWhile (\<lambda>d. d \<le> c) (index df))"
  let ?j = "length (takeWhile (\<lambda>d. d < c) (index df))"
  have tr: "index (fst (split_train_test df c)) = filter (\<lambda>d. d \<le> c) (index df)"
    using sorted_takeWhile_le[OF assms, of c] takeWhile_eq_take[of "\<lambda>d. d \<le> c" "index df"]
    by (simp add: split_train_test_def Let_def take_rows_def)
  have te: "index (snd (split_train_test df c)) = filter (\<lambda>d. c \<le> d) (index df)"
    using sorted_dropWhile_less[OF assms, of c] dropWhile_eq_drop[of "\<lambda>d. d < c" "index df"]
    by (simp add: split_train_test_def Let_def drop_rows_def)
  have names: "map fst (columns (fst (split_train_test df c))) = map fst (columns df)"
    "map fst (columns (snd (split_train_test df c))) = map fst (columns df)"
    by (simp_all add: split_train_test_def Let_def take_rows_def drop_rows_def split_beta comp_def)
  have cols: "getcol (fst (split_train_test df c)) name = Inr (select (map (\<lambda>d. d \<le> c) (index df)) col)
          \<and> getcol (snd (split_train_test df c)) name = Inr (select (map (\<lambda>d. c \<le> d) (index df)) col)"
    if "getcol df name = Inr col" "length col = length (index df)" for name col
    using that
    by (simp add: split_train_test_def Let_def getcol_take_rows getcol_drop_rows
          select_sorted_le[OF assms] select_sorted_ge[OF assms])
  show ?thesis using tr te names cols by simp
qed

text \<open>The theorem at the table of four days, split at day 3.\<close>

theorem split_train_test_inclusive_witness:
  "sorted (index four_days) \<and> 3 \<in> set (index four_days)
   \<and> index (fst (split_train_test four_days 3)) = [1, 2, 3]
   \<and> index (snd (split_train_test four_days 3)) = [3, 4]
   \<and> getcol (fst (split_train_test four_days 3)) ''sales'' = Inr [Fin 10, Fin 20, Fin 30]
   \<and> getcol (snd (split_train_test four_days 3)) ''sales'' = Inr [Fin 30, Fin 40]"
proof -
  have s: "sorted (index four_days)" by (simp add: four_days_def)
  have g: "getcol four_days ''sales'' = Inr [Fin 10, Fin 20, Fin 30, Fin 40]
     \<and> length [Fin 10, Fin 20, Fin 30, Fin 40] = length (index four_days)"
    by (simp add: four_days_def getcol_def)
  note t = split_train_test_inclusive[OF s, of 3]
  have i: "index (fst (split_train_test four_days 3)) = [1, 2, 3]"
    "index (snd (split_train_test four_days 3)) = [3, 4]"
    using t by (simp_all add: four_days_def)
  from t g have "getcol (fst (split_train_test four_days 3)) ''sales'' = Inr (select (map (\<lambda>d. d \<le> 3) (index four_days)) [Fin 10, Fin 20, Fin 30, Fin 40])
          \<and> getcol (snd (split_train_test four_days 3)) ''sales'' = Inr (select (map (\<lambda>d. 3 \<le> d) (index four_days)) [Fin 10, Fin 20, Fin 30, Fin 40])"
    by blast
  then have c: "getcol (fst (split_train_test four_days 3)) ''sales'' = Inr [Fin 10, Fin 20, Fin 30]"
    "getcol (snd (split_train_test four_days 3)) ''sales'' = Inr [Fin 30, Fin 40]"
    by (simp_all add: four_days_def)
  from s i c show ?thesis by (simp add: four_days_def)
qed

section \<open>Verification: correlation screening\<close>

text \<open>
  C9.  The claim has the screening compute a correlation for every feature with more
  than 10 observations.  At the table of twelve days, where the feature has 11
  observations and the target 12, the function drops the missing cells of the two
  columns separately, hands SciPy samples of different lengths and ends with its
  \<open>ValueError\<close>, whatever \<open>pearsonr\<close> computes on valid samples.
\<close>

theorem correlation_raises_on_missing_cell:
  "calculate_correlations pearson ragged_frame ''sales'' 10 =
     Inl (ValueError ''x and y must have the same length.'')"
  by (simp add: calculate_correlations_def ragged_frame_def getcol_def scipy_pearsonr_def
        dropna_def isnan_def)

text \<open>
  On a table whose target has no missing cell, and whose features either have no missing
  cell or have at most 10 observations, the screening does what it is meant to do.
\<close>

lemma dropna_id: "list_all (\<lambda>x. \<not> isnan x) xs \<Longrightarrow> dropna xs = xs"
  by (simp add: dropna_def list_all_iff)

lemma correlate_columns_complete:
  assumes "getcol df target = Inr t" "list_all (\<lambda>x. \<not> isnan x) t"
    and "list_all (\<lambda>nc. length (dropna (snd nc)) \<le> 10
             \<or> (list_all (\<lambda>x. \<not> isnan x) (snd nc) \<and> length (snd nc) = length t)) cols"
  shows "correlate_columns pearson df target cols =
           Inr (map (\<lambda>nc. if 10 < length (dropna (snd nc)) then pearson t (snd nc) else (NaN, NaN)) cols)"
  using assms(3)
proof (induction cols)
  case Nil
  then show ?case by simp
next
  case (Cons nc cols)
  obtain name c where nc: "nc = (name, c)" by (cases nc)
  from Cons.prems have rest: "correlate_columns pearson df target cols =
      Inr (map (\<lambda>nc. if 10 < length (dropna (snd nc)) then pearson t (snd nc) else (NaN, NaN)) cols)"
    by (intro Cons.IH) simp
  show ?case
  proof (cases "10 < length (dropna c)")
    case False
    then show ?thesis by (simp add: nc rest)
  next
    case True
    with Cons.prems nc have full: "list_all (\<lambda>x. \<not> isnan x) c" and len: "length c = length t"
      by auto
    from full have dc: "dropna c = c" by (rule dropna_id)
    from assms(2) have dt: "dropna t = t" by (rule dropna_id)
    from True dc len have "scipy_pearsonr pearson t c = Inr (pearson t c)"
      by (simp add: scipy_pearsonr_def)
    with True show ?thesis by (simp add: nc rest assms(1) dc dt)
  qed
qed

lemma map2_same: "map2 f xs (map g xs) = map (\<lambda>x. f x (g x)) xs"
  by (induction xs) simp_all

lemma calculate_correlations_complete:
  assumes "getcol df target = Inr t" "list_all (\<lambda>x. \<not> isnan x) t"
    and "list_all (\<lambda>nc. length (dropna (snd nc)) \<le> 10
             \<or> (list_all (\<lambda>x. \<not> isnan x) (snd nc) \<and> length (snd nc) = length t))
           (filter (\<lambda>nc. fst nc \<noteq> target) (columns df))"
  shows "calculate_correlations pearson df target top_n =
     Inr (take top_n (sort_by_strength
       (map (\<lambda>nc. corr_row_of nc
               (if 10 < length (dropna (snd nc)) then pearson t (snd nc) else (NaN, NaN)))
            (filter (\<lambda>nc. fst nc \<noteq> target) (columns df)))))"
  by (simp add: calculate_correlations_def Let_def correlate_columns_complete[OF assms] map2_same)

text \<open>
  The ranking is descending in strength (a row is never followed by a stronger one), and
  an undefined correlation counts with strength 0.
\<close>

lemma flt_asym: "flt a b \<Longrightarrow> \<not> flt b a"
  by (cases a; cases b) simp_all

lemma flt_negtrans: "\<not> isnan b \<Longrightarrow> \<not> flt a b \<Longrightarrow> \<not> flt b c \<Longrightarrow> \<not> flt a c"
  by (cases a; cases b; cases c) (simp_all add: isnan_def)

lemma set_insert_by_strength [simp]: "set (insert_by_strength r rs) = insert r (set rs)"
  by (induction rs) auto

lemma set_sort_by_strength [simp]: "set (sort_by_strength rs) = set rs"
  by (induction rs) simp_all

lemma length_insert_by_strength [simp]: "length (insert_by_strength r rs) = Suc (length rs)"
  by (induction rs) simp_all

lemma length_sort_by_strength [simp]: "length (sort_by_strength rs) = length rs"
  by (induction rs) simp_all

lemma sorted_insert_by_strength:
  assumes "sorted_wrt (\<lambda>a b. \<not> flt (strength a) (strength b)) rs"
    and "\<forall>x\<in>set rs. \<not> isnan (strength x)"
  shows "sorted_wrt (\<lambda>a b. \<not> flt (strength a) (strength b)) (insert_by_strength r rs)"
  using assms
proof (induction rs)
  case Nil
  then show ?case by simp
next
  case (Cons y ys)
  show ?case
  proof (cases "flt (strength r) (strength y)")
    case True
    with Cons show ?thesis by (auto dest: flt_asym)
  next
    case False
    have "\<not> flt (strength r) (strength z)" if "z \<in> set ys" for z
    proof (rule flt_negtrans[OF _ False])
      show "\<not> isnan (strength y)" using Cons.prems(2) by simp
      show "\<not> flt (strength y) (strength z)" using Cons.prems(1) that by simp
    qed
    with False Cons.prems show ?thesis by simp
  qed
qed

lemma sorted_sort_by_strength:
  "\<forall>x\<in>set rs. \<not> isnan (strength x) \<Longrightarrow>
     sorted_wrt (\<lambda>a b. \<not> flt (strength a) (strength b)) (sort_by_strength rs)"
  by (induction rs) (simp_all add: sorted_insert_by_strength)

lemma strength_corr_row_of: "\<not> isnan (strength (corr_row_of nc rp))"
  by (cases "fst rp") (simp_all add: corr_row_of_def isnan_def)

lemma undefined_corr_row:
  "corr_row_of nc (NaN, NaN) =
     \<lparr>feature = fst nc, correlation = NaN, corr_p_value = NaN, corr_significant = False,
      strength = Fin 0\<rparr>"
  by (simp add: corr_row_of_def isnan_def)

section \<open>Verification: feature engineering\<close>

subsection \<open>Columns\<close>

lemma length_ffill_from [simp]: "length (ffill_from p xs) = length xs"
  by (induction xs arbitrary: p) simp_all

lemma length_ffill [simp]: "length (ffill xs) = length xs"
  by (simp add: ffill_def)

lemma length_bfill [simp]: "length (bfill xs) = length xs"
  by (simp add: bfill_def)

lemma length_fillna [simp]: "length (fillna v xs) = length xs"
  by (simp add: fillna_def)

lemma length_shift [simp]: "length (shift k xs) = length xs"
  by (simp add: shift_def)

lemma length_rolling [simp]: "length (rolling w agg xs) = length xs"
  by (simp add: rolling_def)

lemma length_int_col [simp]: "length (int_col f ds) = length ds"
  by (simp add: int_col_def)

lemma ffill_from_nth:
  "i < length xs \<Longrightarrow> \<not> isnan (xs ! i) \<Longrightarrow> ffill_from p xs ! i = xs ! i"
proof (induction xs arbitrary: p i)
  case Nil
  then show ?case by simp
next
  case (Cons x xs)
  then show ?case by (cases i) simp_all
qed

lemma ffill_nth: "i < length xs \<Longrightarrow> \<not> isnan (xs ! i) \<Longrightarrow> ffill xs ! i = xs ! i"
  by (simp add: ffill_def ffill_from_nth)

lemma bfill_nth: "i < length xs \<Longrightarrow> \<not> isnan (xs ! i) \<Longrightarrow> bfill xs ! i = xs ! i"
  by (simp add: bfill_def rev_nth ffill_nth)

lemma fillna_nth: "i < length xs \<Longrightarrow> \<not> isnan (xs ! i) \<Longrightarrow> fillna v xs ! i = xs ! i"
  by (simp add: fillna_def)

lemma fill_nth:
  "i < length xs \<Longrightarrow> \<not> isnan (xs ! i) \<Longrightarrow> fillna v (ffill (bfill xs)) ! i = xs ! i"
  by (simp add: fillna_nth ffill_nth bfill_nth)

lemma fillna_no_nan: "\<not> isnan v \<Longrightarrow> list_all (\<lambda>x. \<not> isnan x) (fillna v xs)"
  by (auto simp add: fillna_def list_all_iff)

lemma fill_id: "list_all (\<lambda>x. \<not> isnan x) xs \<Longrightarrow> fillna v (ffill (bfill xs)) = xs"
  by (rule nth_equalityI) (simp_all add: fill_nth list_all_length)

lemma shift_nth: "k \<le> i \<Longrightarrow> i < length xs \<Longrightarrow> shift k xs ! i = xs ! (i - k)"
  by (simp add: shift_def nth_append min_def)

lemma shift_nth_early: "i < k \<Longrightarrow> i < length xs \<Longrightarrow> shift k xs ! i = NaN"
  by (simp add: shift_def nth_append min_def)

lemma rolling_nth:
  "i < length xs \<Longrightarrow> w \<le> i + 1 \<Longrightarrow> list_all is_finite (take w (drop (i + 1 - w) xs)) \<Longrightarrow>
     rolling w agg xs ! i = agg (take w (drop (i + 1 - w) xs))"
  by (simp add: rolling_def Let_def)

lemma window_shift1:
  assumes "0 < w" "w \<le> i" "i < length xs"
  shows "take w (drop (i + 1 - w) (shift 1 xs)) = take w (drop (i - w) xs)"
proof -
  from assms have "drop (i + 1 - w) (shift 1 xs) = drop (i - w) (take (length xs - 1) xs)"
    by (simp add: shift_def min_def Suc_diff_le)
  also have "take w \<dots> = take w (drop (i - w) xs)"
  proof -
    from assms have "min w (length xs - 1 - (i - w)) = w" by arith
    then show ?thesis by (simp add: drop_take)
  qed
  finally show ?thesis by simp
qed


subsection \<open>Sums, means and deviations of finite numbers\<close>

lemma foldl_fadd_finite:
  "list_all is_finite xs \<Longrightarrow> foldl fadd (Fin a) xs = Fin (a + sum_list (map fsign xs))"
proof (induction xs arbitrary: a)
  case Nil
  then show ?case by simp
next
  case (Cons x xs)
  then obtain r where x: "x = Fin r" by (cases x) (simp_all add: is_finite_def)
  with Cons show ?case by (simp add: add.assoc)
qed

lemma fsum_finite: "list_all is_finite xs \<Longrightarrow> fsum xs = Fin (sum_list (map fsign xs))"
  by (simp add: fsum_def foldl_fadd_finite)

lemma np_mean_finite:
  "list_all is_finite xs \<Longrightarrow> xs \<noteq> [] \<Longrightarrow>
     np_mean xs = Fin (sum_list (map fsign xs) / real (length xs))"
  by (simp add: np_mean_def fsum_finite)

lemma np_std_finite:
  assumes "list_all is_finite xs" "2 \<le> length xs"
  shows "is_finite (np_std 1 xs)"
proof -
  from assms have ne: "xs \<noteq> []" by auto
  let ?mu = "sum_list (map fsign xs) / real (length xs)"
  let ?sq = "map (\<lambda>x. fsquare (fsub x (Fin ?mu))) xs"
  have sq: "?sq = map (\<lambda>x. Fin ((fsign x - ?mu)\<^sup>2)) xs"
  proof (rule map_cong[OF refl])
    fix x assume "x \<in> set xs"
    with assms(1) obtain r where "x = Fin r"
      by (cases x) (auto simp add: list_all_iff is_finite_def)
    then show "fsquare (fsub x (Fin ?mu)) = Fin ((fsign x - ?mu)\<^sup>2)"
      by (simp add: fsquare_def fsub_def power2_eq_square)
  qed
  have fin: "list_all is_finite ?sq" unfolding sq by (simp add: list_all_iff is_finite_def)
  have nonneg: "0 \<le> sum_list (map fsign ?sq)"
    unfolding sq by (rule sum_list_nonneg) auto
  from assms(2) have pos: "real (length xs - 1) \<noteq> 0" by simp
  have "np_var 1 xs = Fin (sum_list (map fsign ?sq) / real (length xs - 1))"
    using pos by (simp add: np_var_def np_mean_finite[OF assms(1) ne] fsum_finite[OF fin] Let_def)
  moreover have "0 \<le> sum_list (map fsign ?sq) / real (length xs - 1)"
    using nonneg by simp
  ultimately show ?thesis by (simp add: np_std_def is_finite_def)
qed

lemma finite_not_nan: "is_finite x \<Longrightarrow> \<not> isnan x"
  by (cases x) (simp_all add: is_finite_def isnan_def)


subsection \<open>The merged table\<close>

lemma merge_left_payload:
  assumes "(k, a, b) \<in> set (merge_left l r)"
  shows "(k, a) \<in> set l"
proof -
  from assms obtain k' a' where in_l: "(k', a') \<in> set l"
    and row: "(k, a, b) \<in> set (case filter (\<lambda>kv. fst kv = k') r of
                 [] \<Rightarrow> [(k', a', NaN)] | ms \<Rightarrow> map (\<lambda>kv. (k', a', snd kv)) ms)"
    by (auto simp add: merge_left_def)
  from row have "k = k' \<and> a = a'"
    by (cases "filter (\<lambda>kv. fst kv = k') r") auto
  with in_l show ?thesis by simp
qed

lemma merge_left_keys: "set (map fst (merge_left l r)) = set (map fst l)"
proof -
  have "\<exists>b. (k, a, b) \<in> set (merge_left l r)" if "(k, a) \<in> set l" for k a
  proof (cases "filter (\<lambda>kv. fst kv = k) r")
    case Nil
    with that show ?thesis by (force simp add: merge_left_def)
  next
    case (Cons m ms)
    with that show ?thesis by (force simp add: merge_left_def)
  qed
  then have "set (map fst l) \<subseteq> set (map fst (merge_left l r))" by force
  moreover have "set (map fst (merge_left l r)) \<subseteq> set (map fst l)"
    using merge_left_payload by force
  ultimately show ?thesis by blast
qed

lemma groupby_sum_keys: "map fst (groupby_sum kvs) = sort (remdups (map fst kvs))"
  by (simp add: groupby_sum_def comp_def)

lemma groupby_sum_finite: "(k, v) \<in> set (groupby_sum kvs) \<Longrightarrow> is_finite v"
  by (auto simp add: groupby_sum_def is_finite_def)


lemma merged_table_unfold:
  fixes raw oil
  defines "daily \<equiv> groupby_sum (map (\<lambda>r. (s_date r, s_sales r)) raw)"
    and "promo \<equiv> groupby_sum (map (\<lambda>r. (s_date r, s_onpromotion r)) raw)"
  defines "m1 \<equiv> map (\<lambda>(d, s, p). (d, s, if isnan p then Fin 0 else p)) (merge_left daily promo)"
  defines "m2 \<equiv> merge_left m1 oil"
  shows "merged_table raw oil =
     sort_key fst (map (\<lambda>((d, (s, p), c), cp). (d, s, p, c, cp))
        (zip m2 (bfill (ffill (map (\<lambda>(d, sp, c). c) m2)))))"
  by (simp add: merged_table_def Let_def daily_def promo_def m1_def m2_def)

lemma merged_table_sales_finite:
  assumes "(d, s, p, c, cp) \<in> set (merged_table raw oil)"
  shows "is_finite s"
proof -
  define daily where "daily = groupby_sum (map (\<lambda>r. (s_date r, s_sales r)) raw)"
  define promo where "promo = groupby_sum (map (\<lambda>r. (s_date r, s_onpromotion r)) raw)"
  define m1 where "m1 = map (\<lambda>(d, s, p). (d, s, if isnan p then Fin 0 else p)) (merge_left daily promo)"
  define m2 where "m2 = merge_left m1 oil"
  have mt: "merged_table raw oil =
     sort_key fst (map (\<lambda>((d, (s, p), c), cp). (d, s, p, c, cp))
        (zip m2 (bfill (ffill (map (\<lambda>(d, sp, c). c) m2)))))"
    unfolding m2_def m1_def promo_def daily_def by (rule merged_table_unfold)
  from assms obtain z where z: "z \<in> set (zip m2 (bfill (ffill (map (\<lambda>(d, sp, c). c) m2))))"
    and row: "(d, s, p, c, cp) = (\<lambda>((d, (s, p), c), cp). (d, s, p, c, cp)) z"
    unfolding mt by auto
  obtain d' s' p' c' cp' where zz: "z = ((d', (s', p'), c'), cp')"
    by (metis prod.exhaust)
  with row have eq: "d' = d" "s' = s" "p' = p" by simp_all
  from z zz have "(d', (s', p'), c') \<in> set m2" by (auto dest: set_zip_leftD)
  then have "(d', (s', p')) \<in> set m1" unfolding m2_def by (rule merge_left_payload)
  then obtain p0 where "(d', s', p0) \<in> set (merge_left daily promo)"
    unfolding m1_def by auto
  then have "(d', s') \<in> set daily" by (rule merge_left_payload)
  then show ?thesis unfolding daily_def eq by (rule groupby_sum_finite)
qed

lemma merged_table_dates: "set (map fst (merged_table raw oil)) = s_date ` set raw"
proof -
  define daily where "daily = groupby_sum (map (\<lambda>r. (s_date r, s_sales r)) raw)"
  define promo where "promo = groupby_sum (map (\<lambda>r. (s_date r, s_onpromotion r)) raw)"
  define m1 where "m1 = map (\<lambda>(d, s, p). (d, s, if isnan p then Fin 0 else p)) (merge_left daily promo)"
  define m2 where "m2 = merge_left m1 oil"
  define cp where "cp = bfill (ffill (map (\<lambda>(d, sp, c). c) m2))"
  have mt: "merged_table raw oil =
     sort_key fst (map (\<lambda>((d, (s, p), c), cp). (d, s, p, c, cp)) (zip m2 cp))"
    unfolding cp_def m2_def m1_def promo_def daily_def by (rule merged_table_unfold)
  have len: "length cp = length m2" by (simp add: cp_def)
  have "map fst (map (\<lambda>((d, (s, p), c), cp). (d, s, p, c, cp)) (zip m2 cp)) = map fst (map fst (zip m2 cp))"
    by (simp add: split_beta)
  also have "\<dots> = map fst m2" using len by simp
  finally have "map fst (map (\<lambda>((d, (s, p), c), cp). (d, s, p, c, cp)) (zip m2 cp)) = map fst m2" .
  then have "set (map fst (map (\<lambda>((d, (s, p), c), cp). (d, s, p, c, cp)) (zip m2 cp))) = set (map fst m2)"
    by (rule arg_cong)
  moreover have "set (map fst (merged_table raw oil)) =
      set (map fst (map (\<lambda>((d, (s, p), c), cp). (d, s, p, c, cp)) (zip m2 cp)))"
    unfolding mt by (simp only: set_map set_sort)
  ultimately have "set (map fst (merged_table raw oil)) = set (map fst m2)" by (rule trans[rotated])
  also have "\<dots> = set (map fst m1)" unfolding m2_def by (rule merge_left_keys)
  also have "map fst m1 = map fst (merge_left daily promo)"
    unfolding m1_def by (simp add: split_beta)
  also have "set \<dots> = set (map fst daily)" by (rule merge_left_keys)
  also have "\<dots> = s_date ` set raw"
    unfolding daily_def groupby_sum_keys by (simp add: comp_def)
  finally show ?thesis .
qed

lemma merged_table_sorted: "sorted (map fst (merged_table raw oil))"
  by (simp add: merged_table_def Let_def)

subsection \<open>Cells of the lag and rolling columns\<close>

lemma lag_cell:
  assumes "list_all is_finite sales" "k \<le> i" "i < length sales"
  shows "fillna v (ffill (bfill (shift k sales))) ! i = sales ! (i - k)"
proof -
  from assms have "is_finite (sales ! (i - k))" by (simp add: list_all_length)
  then have "\<not> isnan (shift k sales ! i)"
    using assms by (simp add: shift_nth finite_not_nan)
  then show ?thesis using assms by (simp add: fill_nth shift_nth)
qed

lemma window_finite:
  "list_all is_finite sales \<Longrightarrow> list_all is_finite (take w (drop j sales))"
  by (auto simp add: list_all_iff dest: in_set_takeD in_set_dropD)

lemma rolled_cell:
  assumes "list_all is_finite sales" "0 < w" "w \<le> i" "i < length sales"
    and "\<And>win. list_all is_finite win \<Longrightarrow> length win = w \<Longrightarrow> is_finite (agg win)"
  shows "fillna v (ffill (bfill (rolling w agg (shift 1 sales)))) ! i = agg (take w (drop (i - w) sales))"
proof -
  let ?win = "take w (drop (i - w) sales)"
  have win: "take w (drop (i + 1 - w) (shift 1 sales)) = ?win"
    using assms(2-4) by (rule window_shift1)
  have fin: "list_all is_finite ?win" using assms(1) by (rule window_finite)
  have len: "length ?win = w" using assms(3,4) by simp
  have cell: "rolling w agg (shift 1 sales) ! i = agg ?win"
  proof -
    have a: "i < length (shift 1 sales)" using assms(4) by simp
    have b: "w \<le> i + 1" using assms(3) by simp
    have c: "list_all is_finite (take w (drop (i + 1 - w) (shift 1 sales)))"
      unfolding win by (rule fin)
    show ?thesis using rolling_nth[OF a b c] unfolding win .
  qed
  have "is_finite (agg ?win)" using fin len by (rule assms(5))
  then have "\<not> isnan (rolling w agg (shift 1 sales) ! i)"
    unfolding cell by (rule finite_not_nan)
  then show ?thesis using assms(4) cell by (simp add: fill_nth)
qed

lemma np_mean_is_finite: "list_all is_finite win \<Longrightarrow> length win = w \<Longrightarrow> 0 < w \<Longrightarrow> is_finite (np_mean win)"
  using np_mean_finite[of win] by (auto simp add: is_finite_def)

lemma rolled_mean_cell:
  assumes "list_all is_finite sales" "0 < w" "w \<le> i" "i < length sales"
  shows "fillna v (ffill (bfill (rolling_mean w (shift 1 sales)))) ! i = np_mean (take w (drop (i - w) sales))"
  unfolding rolling_mean_def using assms
  by (rule rolled_cell) (simp add: np_mean_is_finite[OF _ _ assms(2)])

lemma rolled_std_cell:
  assumes "list_all is_finite sales" "2 \<le> w" "w \<le> i" "i < length sales"
  shows "fillna v (ffill (bfill (rolling_std w (shift 1 sales)))) ! i = np_std 1 (take w (drop (i - w) sales))"
  unfolding rolling_std_def
proof (rule rolled_cell[OF assms(1) _ assms(3,4)])
  show "0 < w" using assms(2) by simp
  show "is_finite (np_std 1 win)" if "list_all is_finite win" "length win = w" for win
  proof (rule np_std_finite[OF that(1)])
    show "2 \<le> length win" using that(2) assms(2) by simp
  qed
qed

lemma getcol_fill_frame:
  "getcol df name = Inr c \<Longrightarrow> getcol (fill_frame df) name = Inr (fillna (Fin 0) (ffill (bfill c)))"
  by (auto simp add: getcol_def fill_frame_def map_of_map split: option.splits)

lemma derived_columns:
  fixes raw oil hol
  defines "rows \<equiv> merged_table raw oil"
  defines "sales \<equiv> map (\<lambda>(d, s, p, c, cp). s) rows"
  shows "getcol (derived_features raw oil hol) ''sales'' = Inr sales"
    and "getcol (derived_features raw oil hol) ''lag_1'' = Inr (shift 1 sales)"
    and "getcol (derived_features raw oil hol) ''lag_7'' = Inr (shift 7 sales)"
    and "getcol (derived_features raw oil hol) ''lag_30'' = Inr (shift 30 sales)"
    and "getcol (derived_features raw oil hol) ''roll_mean_7'' = Inr (rolling_mean 7 (shift 1 sales))"
    and "getcol (derived_features raw oil hol) ''roll_mean_30'' = Inr (rolling_mean 30 (shift 1 sales))"
    and "getcol (derived_features raw oil hol) ''roll_std_7'' = Inr (rolling_std 7 (shift 1 sales))"
    and "getcol (derived_features raw oil hol) ''roll_std_30'' = Inr (rolling_std 30 (shift 1 sales))"
    and "index (derived_features raw oil hol) = map fst rows"
  by (simp_all add: derived_features_def Let_def getcol_def rows_def sales_def)

lemma merged_sales_finite:
  "list_all is_finite (map (\<lambda>(d, s, p, c, cp). s) (merged_table raw oil))"
  by (auto simp add: list_all_iff dest: merged_table_sales_finite)

subsection \<open>Rows and dates\<close>

lemma consecutive_days_tail: "consecutive_days (d # e # ds) \<Longrightarrow> e = d + 1"
  "consecutive_days (d # e # ds) \<Longrightarrow> consecutive_days (e # ds)"
  by auto

lemma consecutive_days_nth:
  "consecutive_days xs \<Longrightarrow> j < length xs \<Longrightarrow> xs ! j = hd xs + int j"
proof (induction xs arbitrary: j)
  case Nil
  then show ?case by simp
next
  case (Cons d xs)
  show ?case
  proof (cases j)
    case 0
    then show ?thesis by simp
  next
    case (Suc j')
    with Cons.prems obtain e ds where xs: "xs = e # ds" by (cases xs) auto
    from Cons.prems(1) have e: "e = d + 1" and c: "consecutive_days xs"
      unfolding xs by (rule consecutive_days_tail)+
    from Cons.prems(2) Suc have "j' < length xs" by simp
    with c have "xs ! j' = hd xs + int j'" by (rule Cons.IH)
    with e xs Suc show ?thesis by simp
  qed
qed

lemma position_of_nth:
  "distinct xs \<Longrightarrow> j < length xs \<Longrightarrow> position_of (xs ! j) xs = Some j"
proof (induction xs arbitrary: j)
  case Nil
  then show ?case by simp
next
  case (Cons x xs)
  show ?case
  proof (cases j)
    case 0
    then show ?thesis by simp
  next
    case (Suc j')
    with Cons.prems have "xs ! j' \<noteq> x" by auto
    with Cons Suc show ?thesis by simp
  qed
qed

lemma consecutive_days_distinct: "consecutive_days xs \<Longrightarrow> distinct xs"
proof -
  assume c: "consecutive_days xs"
  show "distinct xs"
  proof (rule distinct_conv_nth[THEN iffD2], intro allI impI)
    fix i j assume "i < length xs" "j < length xs" "i \<noteq> j"
    then show "xs ! i \<noteq> xs ! j"
      using consecutive_days_nth[OF c, of i] consecutive_days_nth[OF c, of j] by simp
  qed
qed

lemma cell_at_nth:
  assumes "getcol df name = Inr c" "distinct (index df)" "j < length (index df)" "j < length c"
  shows "cell_at df name (index df ! j) = Some (c ! j)"
  using assms by (simp add: cell_at_def position_of_nth)


subsection \<open>The engineered table\<close>

lemma engineered_columns:
  fixes raw oil hol
  defines "sales \<equiv> map (\<lambda>(d, s, p, c, cp). s) (merged_table raw oil)"
  defines "fill \<equiv> \<lambda>c. fillna (Fin 0) (ffill (bfill c))"
  shows "getcol (engineer_features raw oil hol) ''sales'' = Inr sales"
    and "getcol (engineer_features raw oil hol) ''lag_1'' = Inr (fill (shift 1 sales))"
    and "getcol (engineer_features raw oil hol) ''lag_7'' = Inr (fill (shift 7 sales))"
    and "getcol (engineer_features raw oil hol) ''lag_30'' = Inr (fill (shift 30 sales))"
    and "getcol (engineer_features raw oil hol) ''roll_mean_7'' = Inr (fill (rolling_mean 7 (shift 1 sales)))"
    and "getcol (engineer_features raw oil hol) ''roll_mean_30'' = Inr (fill (rolling_mean 30 (shift 1 sales)))"
    and "getcol (engineer_features raw oil hol) ''roll_std_7'' = Inr (fill (rolling_std 7 (shift 1 sales)))"
    and "getcol (engineer_features raw oil hol) ''roll_std_30'' = Inr (fill (rolling_std 30 (shift 1 sales)))"
    and "index (engineer_features raw oil hol) = map fst (merged_table raw oil)"
    and "list_all is_finite sales"
    and "length sales = length (merged_table raw oil)"
proof -
  have fin: "list_all is_finite sales" unfolding sales_def by (rule merged_sales_finite)
  then have "list_all (\<lambda>x. \<not> isnan x) sales"
    by (auto simp add: list_all_iff finite_not_nan)
  then have id: "fill sales = sales" unfolding fill_def by (rule fill_id)
  have "getcol (engineer_features raw oil hol) ''sales'' = Inr (fill sales)"
    unfolding engineer_features_def fill_def sales_def
    by (rule getcol_fill_frame) (rule derived_columns)
  then show "getcol (engineer_features raw oil hol) ''sales'' = Inr sales" by (simp only: id)
  show "getcol (engineer_features raw oil hol) ''lag_1'' = Inr (fill (shift 1 sales))"
    unfolding engineer_features_def fill_def sales_def
    by (rule getcol_fill_frame) (rule derived_columns)
  show "getcol (engineer_features raw oil hol) ''lag_7'' = Inr (fill (shift 7 sales))"
    unfolding engineer_features_def fill_def sales_def
    by (rule getcol_fill_frame) (rule derived_columns)
  show "getcol (engineer_features raw oil hol) ''lag_30'' = Inr (fill (shift 30 sales))"
    unfolding engineer_features_def fill_def sales_def
    by (rule getcol_fill_frame) (rule derived_columns)
  show "getcol (engineer_features raw oil hol) ''roll_mean_7'' = Inr (fill (rolling_mean 7 (shift 1 sales)))"
    unfolding engineer_features_def fill_def sales_def
    by (rule getcol_fill_frame) (rule derived_columns)
  show "getcol (engineer_features raw oil hol) ''roll_mean_30'' = Inr (fill (rolling_mean 30 (shift 1 sales)))"
    unfolding engineer_features_def fill_def sales_def
    by (rule getcol_fill_frame) (rule derived_columns)
  show "getcol (engineer_features raw oil hol) ''roll_std_7'' = Inr (fill (rolling_std 7 (shift 1 sales)))"
    unfolding engineer_features_def fill_def sales_def
    by (rule getcol_fill_frame) (rule derived_columns)
  show "getcol (engineer_features raw oil hol) ''roll_std_30'' = Inr (fill (rolling_std 30 (shift 1 sales)))"
    unfolding engineer_features_def fill_def sales_def
    by (rule getcol_fill_frame) (rule derived_columns)
  show "index (engineer_features raw oil hol) = map fst (merged_table raw oil)"
    by (simp add: engineer_features_def fill_frame_def derived_columns)
  show "list_all is_finite sales" by (rule fin)
  show "length sales = length (merged_table raw oil)" by (simp add: sales_def)
qed

text \<open>
  C4, as amended.  In the engineered table, whose rows are in date order, every lag
  feature is the sales of the row that many rows earlier (lag_30 at row i is the sales at
  row i - 30, for every i >= 30), and every rolling statistic of width w is taken over
  the sales of the w rows i - w .. i - 1, the row i itself excluded (roll_mean_7 at row i
  is the mean of the sales at rows i - 7 .. i - 1, for every i >= 7; roll_std with the
  sample standard deviation).  When the table has a row for every calendar day, row i
  is day first + i, so that lag_30 at date d is the sales at date d - 30.
\<close>

theorem lag_and_rolling_by_rows:
  fixes raw oil hol
  defines "df \<equiv> engineer_features raw oil hol"
  shows "\<exists>S L1 L7 L30 M7 M30 D7 D30.
      getcol df ''sales'' = Inr S \<and> length S = length (index df)
    \<and> getcol df ''lag_1'' = Inr L1 \<and> getcol df ''lag_7'' = Inr L7 \<and> getcol df ''lag_30'' = Inr L30
    \<and> getcol df ''roll_mean_7'' = Inr M7 \<and> getcol df ''roll_mean_30'' = Inr M30
    \<and> getcol df ''roll_std_7'' = Inr D7 \<and> getcol df ''roll_std_30'' = Inr D30
    \<and> (\<forall>i. i < length S \<longrightarrow>
          (1 \<le> i \<longrightarrow> L1 ! i = S ! (i - 1))
        \<and> (7 \<le> i \<longrightarrow> L7 ! i = S ! (i - 7)
                  \<and> M7 ! i = np_mean (take 7 (drop (i - 7) S))
                  \<and> D7 ! i = np_std 1 (take 7 (drop (i - 7) S)))
        \<and> (30 \<le> i \<longrightarrow> L30 ! i = S ! (i - 30)
                  \<and> M30 ! i = np_mean (take 30 (drop (i - 30) S))
                  \<and> D30 ! i = np_std 1 (take 30 (drop (i - 30) S))))
    \<and> (consecutive_days (index df) \<longrightarrow>
          (\<forall>i. i < length S \<longrightarrow> index df ! i = hd (index df) + int i)
        \<and> (\<forall>d. d \<in> set (index df) \<and> hd (index df) + 30 \<le> d \<longrightarrow>
              cell_at df ''lag_30'' d = cell_at df ''sales'' (d - 30)))"
proof -
  define S where "S = map (\<lambda>(d, s, p, c, cp). s) (merged_table raw oil)"
  define fill where "fill = (\<lambda>c. fillna (Fin 0) (ffill (bfill c)))"
  have cols: "getcol df ''sales'' = Inr S"
    "getcol df ''lag_1'' = Inr (fill (shift 1 S))"
    "getcol df ''lag_7'' = Inr (fill (shift 7 S))"
    "getcol df ''lag_30'' = Inr (fill (shift 30 S))"
    "getcol df ''roll_mean_7'' = Inr (fill (rolling_mean 7 (shift 1 S)))"
    "getcol df ''roll_mean_30'' = Inr (fill (rolling_mean 30 (shift 1 S)))"
    "getcol df ''roll_std_7'' = Inr (fill (rolling_std 7 (shift 1 S)))"
    "getcol df ''roll_std_30'' = Inr (fill (rolling_std 30 (shift 1 S)))"
    unfolding df_def S_def fill_def by (rule engineered_columns)+
  have fin: "list_all is_finite S" unfolding S_def by (rule engineered_columns)
  have len: "length S = length (index df)"
    unfolding df_def S_def by (simp add: engineered_columns(9))
  have lag: "fill (shift k S) ! i = S ! (i - k)" if "k \<le> i" "i < length S" for k i
    unfolding fill_def using fin that by (rule lag_cell)
  have mean: "fill (rolling_mean w (shift 1 S)) ! i = np_mean (take w (drop (i - w) S))"
    if "0 < w" "w \<le> i" "i < length S" for w i
    unfolding fill_def using fin that by (rule rolled_mean_cell)
  have std: "fill (rolling_std w (shift 1 S)) ! i = np_std 1 (take w (drop (i - w) S))"
    if "2 \<le> w" "w \<le> i" "i < length S" for w i
    unfolding fill_def using fin that by (rule rolled_std_cell)
  have rows: "(1 \<le> i \<longrightarrow> fill (shift 1 S) ! i = S ! (i - 1))
        \<and> (7 \<le> i \<longrightarrow> fill (shift 7 S) ! i = S ! (i - 7)
                  \<and> fill (rolling_mean 7 (shift 1 S)) ! i = np_mean (take 7 (drop (i - 7) S))
                  \<and> fill (rolling_std 7 (shift 1 S)) ! i = np_std 1 (take 7 (drop (i - 7) S)))
        \<and> (30 \<le> i \<longrightarrow> fill (shift 30 S) ! i = S ! (i - 30)
                  \<and> fill (rolling_mean 30 (shift 1 S)) ! i = np_mean (take 30 (drop (i - 30) S))
                  \<and> fill (rolling_std 30 (shift 1 S)) ! i = np_std 1 (take 30 (drop (i - 30) S)))"
    if "i < length S" for i
    using that lag[of 1 i] lag[of 7 i] lag[of 30 i] mean[of 7 i] mean[of 30 i]
      std[of 7 i] std[of 30 i]
    by simp
  have dates: "(\<forall>i. i < length S \<longrightarrow> index df ! i = hd (index df) + int i)
        \<and> (\<forall>d. d \<in> set (index df) \<and> hd (index df) + 30 \<le> d \<longrightarrow>
              cell_at df ''lag_30'' d = cell_at df ''sales'' (d - 30))"
    if cons: "consecutive_days (index df)"
  proof (intro conjI allI impI)
    fix i assume "i < length S"
    then show "index df ! i = hd (index df) + int i"
      using consecutive_days_nth[OF cons, of i] len by simp
  next
    fix d assume d: "d \<in> set (index df) \<and> hd (index df) + 30 \<le> d"
    have dist: "distinct (index df)" using cons by (rule consecutive_days_distinct)
    from d obtain i where i: "i < length (index df)" "index df ! i = d"
      by (auto simp add: in_set_conv_nth)
    from i have di: "d = hd (index df) + int i"
      using consecutive_days_nth[OF cons, of i] by simp
    with d have i30: "30 \<le> i" by simp
    then have j: "i - 30 < length (index df)" using i(1) by simp
    have dj: "index df ! (i - 30) = d - 30"
      using consecutive_days_nth[OF cons j] di i30 by simp
    have "cell_at df ''lag_30'' d = Some (fill (shift 30 S) ! i)"
      using cell_at_nth[OF cols(4) dist i(1)] i len by (simp add: fill_def)
    also have "\<dots> = Some (S ! (i - 30))" using lag[OF i30] i(1) len by simp
    also have "\<dots> = cell_at df ''sales'' (d - 30)"
      using cell_at_nth[OF cols(1) dist j] dj len j by simp
    finally show "cell_at df ''lag_30'' d = cell_at df ''sales'' (d - 30)" .
  qed
  show ?thesis
    using cols(1-8) len rows dates by blast
qed

subsection \<open>Tables with one raw row a day and no oil prices\<close>

lemma filter_key_distinct:
  "distinct (map fst kvs) \<Longrightarrow> kv \<in> set kvs \<Longrightarrow> filter (\<lambda>x. fst x = fst kv) kvs = [kv]"
proof (induction kvs)
  case Nil
  then show ?case by simp
next
  case (Cons a kvs)
  show ?case
  proof (cases "kv = a")
    case True
    from Cons.prems(1) have "fst a \<notin> fst ` set kvs" by simp
    then have "\<forall>x\<in>set kvs. fst x \<noteq> fst a" by (auto intro: rev_image_eqI)
    with True show ?thesis by (simp add: filter_empty_conv)
  next
    case False
    with Cons.prems have in_tl: "kv \<in> set kvs" by simp
    from Cons.prems(1) have "fst a \<notin> fst ` set kvs" by simp
    with in_tl have "fst a \<noteq> fst kv" by (auto intro: rev_image_eqI)
    with Cons in_tl show ?thesis by simp
  qed
qed

lemma groupby_sum_distinct:
  assumes "distinct (map fst kvs)" "sorted (map fst kvs)"
  shows "groupby_sum kvs = map (\<lambda>kv. (fst kv, Fin (snd kv))) kvs"
proof -
  have keys: "sort (remdups (map fst kvs)) = map fst kvs"
    using assms by (simp add: distinct_remdups_id sort_key_id_if_sorted)
  have "groupby_sum kvs =
      map (\<lambda>kv. (fst kv, Fin (sum_list (map snd (filter (\<lambda>x. fst x = fst kv) kvs))))) kvs"
    by (simp add: groupby_sum_def keys comp_def)
  also have "\<dots> = map (\<lambda>kv. (fst kv, Fin (snd kv))) kvs"
    by (rule map_cong[OF refl]) (simp add: filter_key_distinct[OF assms(1)])
  finally show ?thesis .
qed

lemma merge_left_same_keys:
  assumes "distinct ds"
  shows "merge_left (map (\<lambda>d. (d, f d)) ds) (map (\<lambda>d. (d, g d)) ds) = map (\<lambda>d. (d, f d, g d)) ds"
proof -
  have one: "filter (\<lambda>kv. fst kv = d) (map (\<lambda>d. (d, g d)) ds) = [(d, g d)]" if "d \<in> set ds" for d
    using filter_key_distinct[of "map (\<lambda>d. (d, g d)) ds" "(d, g d)"] assms that
    by (simp add: comp_def)
  have "merge_left (map (\<lambda>d. (d, f d)) ds) (map (\<lambda>d. (d, g d)) ds)
      = concat (map (\<lambda>d. [(d, f d, g d)]) ds)"
    unfolding merge_left_def map_map
    by (rule arg_cong[where f = concat], rule map_cong[OF refl]) (simp add: one)
  then show ?thesis by simp
qed

lemma merge_left_empty: "merge_left l [] = map (\<lambda>ka. (fst ka, snd ka, NaN)) l"
  unfolding merge_left_def by (induction l) auto

lemma ffill_from_all_nan: "list_all isnan xs \<Longrightarrow> ffill_from NaN xs = xs"
  by (induction xs) (simp_all add: isnan_def)

lemma fill_all_nan: "list_all isnan xs \<Longrightarrow> bfill (ffill xs) = xs"
proof -
  assume a: "list_all isnan xs"
  then have f: "ffill xs = xs" by (simp add: ffill_def ffill_from_all_nan)
  from a have "list_all isnan (rev xs)" by (simp add: list_all_iff)
  then have "ffill (rev xs) = rev xs" by (simp add: ffill_def ffill_from_all_nan)
  with f show ?thesis by (simp add: bfill_def)
qed

lemma merged_table_day_rows:
  assumes "sorted ds" "distinct ds"
  shows "merged_table (map day_row ds) [] =
           map (\<lambda>d. (d, Fin (real_of_int d), Fin 0, NaN, NaN)) ds"
proof -
  have daily: "groupby_sum (map (\<lambda>r. (s_date r, s_sales r)) (map day_row ds))
      = map (\<lambda>d. (d, Fin (real_of_int d))) ds"
    using assms by (simp add: groupby_sum_distinct comp_def day_row_def)
  have promo: "groupby_sum (map (\<lambda>r. (s_date r, s_onpromotion r)) (map day_row ds))
      = map (\<lambda>d. (d, Fin 0)) ds"
    using assms by (simp add: groupby_sum_distinct comp_def day_row_def)
  have m1: "map (\<lambda>(d, s, p). (d, s, if isnan p then Fin 0 else p))
       (merge_left (map (\<lambda>d. (d, Fin (real_of_int d))) ds) (map (\<lambda>d. (d, Fin 0)) ds))
      = map (\<lambda>d. (d, Fin (real_of_int d), Fin 0)) ds"
    by (simp add: merge_left_same_keys[OF assms(2)] isnan_def)
  have m2: "merge_left (map (\<lambda>d. (d, Fin (real_of_int d), Fin 0)) ds) []
      = map (\<lambda>d. (d, (Fin (real_of_int d), Fin 0), NaN)) ds"
    by (simp add: merge_left_empty comp_def)
  have oilp: "bfill (ffill (map (\<lambda>(d, sp, c). c) (map (\<lambda>d. (d, (Fin (real_of_int d), Fin 0), NaN)) ds)))
      = map (\<lambda>d. NaN) ds"
    by (simp add: comp_def fill_all_nan list_all_iff isnan_def)
  have rows: "map (\<lambda>((d, (s, p), c), cp). (d, s, p, c, cp))
        (zip (map (\<lambda>d. (d, (Fin (real_of_int d), Fin 0), NaN)) ds) (map (\<lambda>d. NaN) ds))
      = map (\<lambda>d. (d, Fin (real_of_int d), Fin 0, NaN, NaN)) ds"
    by (simp add: zip_map_map zip_same_conv_map comp_def)
  have srt: "sort_key fst (map (\<lambda>d. (d, Fin (real_of_int d), Fin 0, NaN, NaN)) ds)
      = map (\<lambda>d. (d, Fin (real_of_int d), Fin 0, NaN, NaN)) ds"
    using assms(1) by (simp add: sort_key_id_if_sorted comp_def)
  show ?thesis
    unfolding merged_table_def Let_def daily promo m1 m2 oilp rows srt ..
qed


lemma consecutive_days_upto: "consecutive_days [i..j]"
proof (induction i j rule: upto.induct)
  case (1 i j)
  show ?case
  proof (cases "i \<le> j")
    case False
    then show ?thesis by simp
  next
    case True
    note ij = this
    show ?thesis
    proof (cases "i + 1 \<le> j")
      case False
      with ij show ?thesis by (simp add: upto_rec1)
    next
      case True
      have "[i..j] = i # (i + 1) # [i + 1 + 1..j]"
        using ij True by (simp add: upto_rec1)
      moreover have "consecutive_days ((i + 1) # [i + 1 + 1..j])"
        using "1.IH"[OF ij] True by (simp add: upto_rec1)
      ultimately show ?thesis by simp
    qed
  qed
qed

lemma day_rows_table:
  assumes "sorted ds" "distinct ds"
  shows "index (engineer_features (map day_row ds) [] []) = ds"
    and "getcol (engineer_features (map day_row ds) [] []) ''sales'' = Inr (map (\<lambda>d. Fin (real_of_int d)) ds)"
    and "getcol (engineer_features (map day_row ds) [] []) ''lag_30'' =
           Inr (fillna (Fin 0) (ffill (bfill (shift 30 (map (\<lambda>d. Fin (real_of_int d)) ds)))))"
proof -
  have S: "map (\<lambda>(d, s, p, c, cp). s) (merged_table (map day_row ds) []) = map (\<lambda>d. Fin (real_of_int d)) ds"
    by (simp add: merged_table_day_rows[OF assms] comp_def)
  show "index (engineer_features (map day_row ds) [] []) = ds"
    by (simp add: engineered_columns(9) merged_table_day_rows[OF assms] comp_def)
  show "getcol (engineer_features (map day_row ds) [] []) ''sales'' = Inr (map (\<lambda>d. Fin (real_of_int d)) ds)"
    using engineered_columns(1)[of "map day_row ds" "[]" "[]"] unfolding S .
  show "getcol (engineer_features (map day_row ds) [] []) ''lag_30'' =
           Inr (fillna (Fin 0) (ffill (bfill (shift 30 (map (\<lambda>d. Fin (real_of_int d)) ds)))))"
    using engineered_columns(4)[of "map day_row ds" "[]" "[]"] unfolding S .
qed

lemma gapped_days:
  "sorted ([0..369] @ [371..400])" "distinct ([0..369] @ [371..400])"
  "length ([0..369] @ [371..400]) = 400"
  "([0..369] @ [371..400]) ! 379 = 380"
  "([0..369] @ [371..400]) ! 349 = 349"
  "([0..369] @ [371..400]) ! 350 = 350"
  "hd ([0..369] @ [371..400]) = 0"
  by (simp_all add: sorted_append nth_append upto_rec1[of 0 369])

lemma full_days:
  "sorted [0..400]" "distinct [0..400]" "length [0..400] = 401"
  "[0..400] ! 380 = 380" "[0..400] ! 350 = 350" "hd [0..400] = 0"
  by (simp_all add: upto_rec1[of 0 400])

text \<open>
  C4 as stated fails on a table with a missing day.  With raw sales for the days 0 to
  400 except day 370 (the sales of day d being d), date 380 has 380 days of history, its
  lag_30 is 349, the sales of the row 30 rows earlier, which is day 349; the sales of
  day 380 - 30 = 350 are 350.
\<close>

theorem lag_30_across_missing_day:
  "hd (index (engineer_features gapped_sales_raw [] [])) = 0
   \<and> 380 \<in> set (index (engineer_features gapped_sales_raw [] []))
   \<and> cell_at (engineer_features gapped_sales_raw [] []) ''lag_30'' 380 = Some (Fin 349)
   \<and> cell_at (engineer_features gapped_sales_raw [] []) ''sales'' 350 = Some (Fin 350)"
proof -
  define ds where "ds = [0..369] @ [371..400]"
  define df where "df = engineer_features gapped_sales_raw [] []"
  define S where "S = map (\<lambda>d. Fin (real_of_int d)) ds"
  note g = gapped_days[folded ds_def]
  have raw: "gapped_sales_raw = map day_row ds" by (simp only: gapped_sales_raw_def ds_def)
  have t: "index df = ds" "getcol df ''sales'' = Inr S"
    "getcol df ''lag_30'' = Inr (fillna (Fin 0) (ffill (bfill (shift 30 S))))"
    unfolding df_def S_def raw by (rule day_rows_table[OF g(1,2)])+
  have idx: "index df = ds" by (rule t)
  have dist: "distinct (index df)" unfolding idx by (rule g)
  have len: "length S = 400" by (simp add: S_def g(3))
  have nth: "S ! j = Fin (real_of_int (ds ! j))" if "j < 400" for j
    unfolding S_def using that by (simp add: g(3))
  have fin: "list_all is_finite S" by (simp add: S_def list_all_iff is_finite_def)
  have "fillna (Fin 0) (ffill (bfill (shift 30 S))) ! 379 = S ! (379 - 30)"
    using fin by (rule lag_cell) (simp_all add: len)
  also have "\<dots> = Fin 349" by (simp add: nth g(5))
  finally have cell: "fillna (Fin 0) (ffill (bfill (shift 30 S))) ! 379 = Fin 349" .
  have "cell_at df ''lag_30'' (index df ! 379) = Some (fillna (Fin 0) (ffill (bfill (shift 30 S))) ! 379)"
    using t(3) dist by (rule cell_at_nth) (simp_all add: idx g(3) len)
  then have a: "cell_at df ''lag_30'' 380 = Some (Fin 349)"
    unfolding cell idx g(4) .
  have "cell_at df ''sales'' (index df ! 350) = Some (S ! 350)"
    using t(2) dist by (rule cell_at_nth) (simp_all add: idx g(3) len)
  then have b: "cell_at df ''sales'' 350 = Some (Fin 350)"
    unfolding idx g(6) by (simp add: nth g(6))
  have "ds ! 379 \<in> set ds" by (rule nth_mem) (simp add: g(3))
  then have c: "380 \<in> set (index df)" unfolding idx g(4) .
  have d: "hd (index df) = 0" unfolding idx by (rule g)
  from a b c d show ?thesis unfolding df_def by simp
qed

text \<open>The theorem at the table of the days 0 to 400, none missing, and date 380.\<close>

theorem lag_and_rolling_by_rows_witness:
  "consecutive_days (index (engineer_features daily_sales_raw [] []))
   \<and> 380 \<in> set (index (engineer_features daily_sales_raw [] []))
   \<and> hd (index (engineer_features daily_sales_raw [] [])) + 30 \<le> 380
   \<and> cell_at (engineer_features daily_sales_raw [] []) ''lag_30'' 380
       = cell_at (engineer_features daily_sales_raw [] []) ''sales'' 350
   \<and> cell_at (engineer_features daily_sales_raw [] []) ''sales'' 350 = Some (Fin 350)"
proof -
  define ds :: "int list" where "ds = [0..400]"
  define df where "df = engineer_features daily_sales_raw [] []"
  define S where "S = map (\<lambda>d. Fin (real_of_int d)) ds"
  note g = full_days[folded ds_def]
  have raw: "daily_sales_raw = map day_row ds" by (simp only: daily_sales_raw_def ds_def)
  have t: "index df = ds" "getcol df ''sales'' = Inr S"
    unfolding df_def S_def raw by (rule day_rows_table[OF g(1,2)])+
  have idx: "index df = ds" by (rule t)
  have cons: "consecutive_days (index df)" unfolding idx ds_def by (rule consecutive_days_upto)
  have "ds ! 380 \<in> set ds" by (rule nth_mem) (simp add: g(3))
  then have mem: "380 \<in> set (index df)" unfolding idx g(4) .
  have hist: "hd (index df) + 30 \<le> 380" unfolding idx g by simp
  from lag_and_rolling_by_rows[of daily_sales_raw "[]" "[]", folded df_def] cons mem hist
  have "cell_at df ''lag_30'' 380 = cell_at df ''sales'' (380 - 30)"
    by blast
  then have lag: "cell_at df ''lag_30'' 380 = cell_at df ''sales'' 350" by simp
  have dist: "distinct (index df)" unfolding idx by (rule g)
  have nth: "S ! 350 = Fin (real_of_int (ds ! 350))"
    unfolding S_def by (rule nth_map) (simp add: g(3))
  have "cell_at df ''sales'' (index df ! 350) = Some (S ! 350)"
    using t(2) dist by (rule cell_at_nth) (simp_all add: idx g(3) S_def)
  then have b: "cell_at df ''sales'' 350 = Some (Fin 350)"
    unfolding idx g(5) nth by simp
  from cons mem hist lag b show ?thesis unfolding df_def by simp
qed

subsection \<open>The final fill\<close>

lemma derived_lengths:
  "list_all (\<lambda>nc. length (snd nc) = length (index (derived_features raw oil hol)))
     (columns (derived_features raw oil hol))"
  by (simp add: derived_features_def Let_def rolling_mean_def rolling_std_def)

lemma derived_names:
  "map fst (columns (derived_features raw oil hol)) =
     [''sales'', ''promo_count'', ''dcoilwtico'', ''oil_price'', ''year'', ''month'',
      ''day_of_week'', ''day_of_month'', ''is_weekend'', ''quarter'', ''lag_1'', ''lag_7'',
      ''lag_30'', ''roll_mean_7'', ''roll_mean_30'', ''roll_std_7'', ''roll_std_30'',
      ''is_holiday'', ''yoy_sales'', ''yoy_growth'']"
  by (simp add: derived_features_def Let_def)

lemma fill_frame_columns:
  "map fst (columns (fill_frame df)) = map fst (columns df)"
  "map snd (columns (fill_frame df)) = map (\<lambda>c. fillna (Fin 0) (ffill (bfill c))) (map snd (columns df))"
  "index (fill_frame df) = index df"
  by (simp_all add: fill_frame_def comp_def split_beta)

lemma fill_frame_cells:
  assumes "list_all (\<lambda>nc. length (snd nc) = n) (columns df)"
  shows "list_all (\<lambda>nc. length (snd nc) = n \<and> list_all (\<lambda>x. \<not> isnan x) (snd nc))
           (columns (fill_frame df))"
  using assms
  by (auto simp add: fill_frame_def list_all_iff fillna_no_nan[unfolded list_all_iff] isnan_def
        fillna_def)

text \<open>
  C5.  The engineered table is the table of all derived columns with one fill applied to
  every column: backward fill, then forward fill, then zero fill.  It has the same index
  as the table before the fill, with every date of the raw sales in it, the same twenty
  columns, every column as long as the index, and no missing cell.
\<close>

theorem final_imputation_pass:
  fixes raw oil hol
  defines "df \<equiv> engineer_features raw oil hol" and "D \<equiv> derived_features raw oil hol"
  shows "df = fill_frame D
     \<and> index df = index D
     \<and> set (index df) = s_date ` set raw
     \<and> map fst (columns df) = map fst (columns D)
     \<and> map snd (columns df) = map (\<lambda>c. fillna (Fin 0) (ffill (bfill c))) (map snd (columns D))
     \<and> map fst (columns df) =
         [''sales'', ''promo_count'', ''dcoilwtico'', ''oil_price'', ''year'', ''month'',
          ''day_of_week'', ''day_of_month'', ''is_weekend'', ''quarter'', ''lag_1'', ''lag_7'',
          ''lag_30'', ''roll_mean_7'', ''roll_mean_30'', ''roll_std_7'', ''roll_std_30'',
          ''is_holiday'', ''yoy_sales'', ''yoy_growth'']
     \<and> list_all (\<lambda>nc. length (snd nc) = length (index df) \<and> list_all (\<lambda>x. \<not> isnan x) (snd nc))
           (columns df)"
proof -
  have eq: "df = fill_frame D" by (simp add: df_def D_def engineer_features_def)
  have idx: "index df = index D" unfolding eq by (rule fill_frame_columns)
  have dates: "set (index df) = s_date ` set raw"
    unfolding df_def engineered_columns(9) using merged_table_dates[of raw oil] by simp
  have names: "map fst (columns df) = map fst (columns D)" unfolding eq by (rule fill_frame_columns)
  have cells: "map snd (columns df) = map (\<lambda>c. fillna (Fin 0) (ffill (bfill c))) (map snd (columns D))"
    unfolding eq by (rule fill_frame_columns)
  have all: "list_all (\<lambda>nc. length (snd nc) = length (index df) \<and> list_all (\<lambda>x. \<not> isnan x) (snd nc))
           (columns df)"
    unfolding idx unfolding eq D_def by (rule fill_frame_cells) (rule derived_lengths)
  show ?thesis
    using eq idx dates names cells all derived_names[of raw oil hol, folded D_def] by simp
qed

lemma three_days_merged:
  "merged_table three_days_raw three_days_oil =
     [(1, Fin 5, Fin 0, Fin 10, Fin 10), (2, Fin 6, Fin 1, NaN, Fin 10), (3, Fin 7, Fin 0, Fin 20, Fin 20)]"
  by (simp add: merged_table_def three_days_raw_def three_days_oil_def groupby_sum_def
        merge_left_def bfill_def ffill_def isnan_def Let_def)

lemma three_days_derived:
  "getcol (derived_features three_days_raw three_days_oil []) ''dcoilwtico'' = Inr [Fin 10, NaN, Fin 20]"
  "getcol (derived_features three_days_raw three_days_oil []) ''oil_price'' = Inr [Fin 10, Fin 10, Fin 20]"
  "getcol (derived_features three_days_raw three_days_oil []) ''lag_1'' = Inr [NaN, Fin 5, Fin 6]"
  "getcol (derived_features three_days_raw three_days_oil []) ''yoy_sales'' = Inr [NaN, NaN, NaN]"
  "index (derived_features three_days_raw three_days_oil []) = [1, 2, 3]"
  by (simp_all add: derived_features_def three_days_merged getcol_def shift_def Let_def)

text \<open>
  The theorem at the table of three days.  The raw oil column, missing on day 2, is
  filled backward by the final pass (20), where the oil_price column, filled forward
  first at line 57, has 10; the first lag, missing on day 1, is filled backward; the
  year-over-year column, missing throughout, ends as zeros.
\<close>

theorem final_imputation_pass_witness:
  "index (engineer_features three_days_raw three_days_oil []) = [1, 2, 3]
   \<and> getcol (engineer_features three_days_raw three_days_oil []) ''dcoilwtico'' = Inr [Fin 10, Fin 20, Fin 20]
   \<and> getcol (engineer_features three_days_raw three_days_oil []) ''oil_price'' = Inr [Fin 10, Fin 10, Fin 20]
   \<and> getcol (engineer_features three_days_raw three_days_oil []) ''lag_1'' = Inr [Fin 5, Fin 5, Fin 6]
   \<and> getcol (engineer_features three_days_raw three_days_oil []) ''yoy_sales'' = Inr [Fin 0, Fin 0, Fin 0]"
proof -
  from final_imputation_pass[of three_days_raw three_days_oil "[]"]
  have eq: "engineer_features three_days_raw three_days_oil [] =
      fill_frame (derived_features three_days_raw three_days_oil [])"
    and idx: "index (engineer_features three_days_raw three_days_oil []) =
      index (derived_features three_days_raw three_days_oil [])"
    by blast+
  show ?thesis
    unfolding eq
    by (simp add: fill_frame_columns getcol_fill_frame[OF three_days_derived(1)]
        getcol_fill_frame[OF three_days_derived(2)] getcol_fill_frame[OF three_days_derived(3)]
        getcol_fill_frame[OF three_days_derived(4)] three_days_derived(5)
        bfill_def ffill_def fillna_def isnan_def)
qed

end
